theory Spec2Isabelle
  imports Main
begin

section \<open>Python text and the library functions filescooper calls\<close>

text \<open>
  A Python \<open>str\<close> is modelled by its UTF-8 encoding, one \<open>char\<close> per byte. Concatenation,
  \<open>startswith\<close>, \<open>endswith\<close> and splitting at an ASCII character act on the encoding exactly
  as they act on the code points.

  What the standard library computes and this development takes as given is a parameter,
  the same for a whole run: \<open>urlparse(url).path\<close> (or the text of the \<open>ValueError\<close> it
  raises); \<open>format_size\<close>, whose text comes out of floating-point division and rounding,
  which none of the properties below depends on; and \<open>str.lower\<close>, \<open>str.upper\<close> and
  \<open>str.strip\<close> on a string that holds a code point beyond ASCII, where they follow the
  Unicode tables. On a string of ASCII characters the three are computed here.
\<close>

record library =
  urlparse_path :: "string \<Rightarrow> string + string"
  format_size :: "int \<Rightarrow> string"
  str_lower :: "string \<Rightarrow> string"
  str_upper :: "string \<Rightarrow> string"
  str_strip :: "string \<Rightarrow> string"

definition is_ascii :: "string \<Rightarrow> bool" where
  "is_ascii s = list_all (\<lambda>c. (of_char c :: nat) < 128) s"

definition is_continuation :: "char \<Rightarrow> bool" where
  "is_continuation c = (128 \<le> (of_char c :: nat) \<and> (of_char c :: nat) < 192)"

definition py_len :: "string \<Rightarrow> nat" where
  \<comment> \<open>\<open>len(s)\<close>: the number of code points, every byte but the continuation bytes.\<close>
  "py_len s = length (filter (\<lambda>c. \<not> is_continuation c) s)"

function codepoints :: "string \<Rightarrow> string list" where
  \<comment> \<open>Iterating over a \<open>str\<close>: one one-character string for each code point.\<close>
  "codepoints [] = []"
| "codepoints (c # cs) =
     (c # takeWhile is_continuation cs) # codepoints (dropWhile is_continuation cs)"
  by pat_completeness auto
termination
  by (relation "measure length") (auto simp: length_dropWhile_le less_Suc_eq_le)

definition lower_char :: "char \<Rightarrow> char" where
  "lower_char c =
     (case map_of (zip ''ABCDEFGHIJKLMNOPQRSTUVWXYZ'' ''abcdefghijklmnopqrstuvwxyz'') c of
        Some d \<Rightarrow> d
      | None \<Rightarrow> c)"

definition upper_char :: "char \<Rightarrow> char" where
  "upper_char c =
     (case map_of (zip ''abcdefghijklmnopqrstuvwxyz'' ''ABCDEFGHIJKLMNOPQRSTUVWXYZ'') c of
        Some d \<Rightarrow> d
      | None \<Rightarrow> c)"

definition lower :: "library \<Rightarrow> string \<Rightarrow> string" where
  \<comment> \<open>\<open>s.lower()\<close>: the ASCII map on an ASCII string, the library's on any other.\<close>
  "lower L s = (if is_ascii s then map lower_char s else str_lower L s)"

definition upper :: "library \<Rightarrow> string \<Rightarrow> string" where
  \<comment> \<open>\<open>s.upper()\<close>: the ASCII map on an ASCII string, the library's on any other.\<close>
  "upper L s = (if is_ascii s then map upper_char s else str_upper L s)"

definition is_space :: "char \<Rightarrow> bool" where
  \<comment> \<open>The ASCII characters for which \<open>str.isspace\<close> holds: 9 to 13, 28 to 31 and 32.\<close>
  "is_space c =
     ((9 \<le> (of_char c :: nat) \<and> (of_char c :: nat) \<le> 13) \<or>
      (28 \<le> (of_char c :: nat) \<and> (of_char c :: nat) \<le> 32))"

definition strip :: "library \<Rightarrow> string \<Rightarrow> string" where
  \<comment> \<open>\<open>s.strip()\<close>: whitespace off both ends of an ASCII string, the library's on any
      other.\<close>
  "strip L s =
     (if is_ascii s then rev (dropWhile is_space (rev (dropWhile is_space s)))
      else str_strip L s)"

definition lstrip_dot :: "string \<Rightarrow> string" where
  \<comment> \<open>\<open>s.lstrip('.')\<close>\<close>
  "lstrip_dot s = dropWhile (\<lambda>c. c = CHR ''.'') s"

definition startswith :: "string \<Rightarrow> string \<Rightarrow> bool" where
  "startswith s p = (take (length p) s = p)"

definition endswith :: "string \<Rightarrow> string \<Rightarrow> bool" where
  "endswith s p = (length p \<le> length s \<and> drop (length s - length p) s = p)"

definition rfind :: "string \<Rightarrow> char \<Rightarrow> int" where
  \<comment> \<open>\<open>s.rfind(c)\<close>: the index of the last \<open>c\<close> in \<open>s\<close>, or -1.\<close>
  "rfind s c =
     (if c \<in> set s
      then int (length s) - 1 - int (length (takeWhile (\<lambda>x. x \<noteq> c) (rev s)))
      else - 1)"

fun split_on :: "char \<Rightarrow> string \<Rightarrow> string list" where
  \<comment> \<open>\<open>s.split(c)\<close> for a one-character separator\<close>
  "split_on c [] = [[]]"
| "split_on c (x # xs) =
     (if x = c then [] # split_on c xs
      else (case split_on c xs of [] \<Rightarrow> [[x]] | w # ws \<Rightarrow> (x # w) # ws))"

definition digit_char :: "nat \<Rightarrow> char" where
  "digit_char n = ''0123456789'' ! n"

fun str_nat :: "nat \<Rightarrow> string" where
  \<comment> \<open>\<open>str(n)\<close> for \<open>n \<ge> 0\<close>: the decimal digits, most significant first.\<close>
  "str_nat n = (if n < 10 then [digit_char n] else str_nat (n div 10) @ [digit_char (n mod 10)])"

declare str_nat.simps [simp del]

definition str_int :: "int \<Rightarrow> string" where
  "str_int i = (if i < 0 then CHR ''-'' # str_nat (nat (- i)) else str_nat (nat i))"

definition ljust :: "nat \<Rightarrow> string \<Rightarrow> string" where
  \<comment> \<open>The format \<open>{s:<n}\<close>: padded with spaces on the right to \<open>n\<close> code points.\<close>
  "ljust n s = s @ replicate (n - py_len s) CHR '' ''"

subsection \<open>\<open>os.path\<close> (posixpath)\<close>

definition basename :: "string \<Rightarrow> string" where
  \<comment> \<open>\<open>i = p.rfind('/') + 1; return p[i:]\<close>\<close>
  "basename p = drop (nat (rfind p CHR ''/'' + 1)) p"

definition path_join :: "string \<Rightarrow> string \<Rightarrow> string" where
  \<comment> \<open>\<open>os.path.join(a, b)\<close>: an absolute \<open>b\<close> replaces \<open>a\<close>; a separator is inserted
      unless \<open>a\<close> is empty or ends in one.\<close>
  "path_join a b =
     (if startswith b ''/'' then b
      else if a = [] \<or> endswith a ''/'' then a @ b
      else a @ ''/'' @ b)"

definition splitext :: "string \<Rightarrow> string \<times> string" where
  \<comment> \<open>\<open>os.path.splitext\<close>: split at the last dot of the last path component, unless only
      dots stand between the start of that component and the dot.\<close>
  "splitext p =
     (let sepIndex = rfind p CHR ''/'';
          dotIndex = rfind p CHR ''.''
      in if dotIndex > sepIndex \<and>
            list_ex (\<lambda>c. c \<noteq> CHR ''.'')
              (take (nat (dotIndex - (sepIndex + 1))) (drop (nat (sepIndex + 1)) p))
         then (take (nat dotIndex) p, drop (nat dotIndex) p)
         else (p, []))"

section \<open>The output directory\<close>

text \<open>
  The file system is the list of the paths that exist, each with the content stored there;
  the first entry for a path is the current one. The list is finite, as a directory is.
\<close>

type_synonym filesystem = "(string \<times> string) list"

definition path_exists :: "filesystem \<Rightarrow> string \<Rightarrow> bool" where
  \<comment> \<open>\<open>os.path.exists\<close>\<close>
  "path_exists fs p = (map_of fs p \<noteq> None)"

definition write_file :: "filesystem \<Rightarrow> string \<Rightarrow> string \<Rightarrow> filesystem" where
  \<comment> \<open>\<open>open(p, 'wb')\<close> and \<open>f.write(data)\<close>: the path now holds \<open>data\<close>, whatever it held.\<close>
  "write_file fs p data = (p, data) # fs"

definition candidate :: "string \<Rightarrow> string \<Rightarrow> nat \<Rightarrow> string" where
  \<comment> \<open>The f-string of \<open>get_unique_filename\<close>: base, underscore, counter, extension.\<close>
  "candidate base ext counter = base @ ''_'' @ str_nat counter @ ext"

lemma digit_char_inj: "a < 10 \<Longrightarrow> b < 10 \<Longrightarrow> digit_char a = digit_char b \<Longrightarrow> a = b"
proof -
  assume a: "a < 10" and b: "b < 10" and e: "digit_char a = digit_char b"
  have "distinct ''0123456789''" by simp
  then show "a = b"
    using a b e unfolding digit_char_def by (subst (asm) nth_eq_iff_index_eq) simp_all
qed

lemma str_nat_nonempty: "str_nat n \<noteq> []"
  by (subst str_nat.simps) simp

lemma str_nat_length1: "(length (str_nat n) = Suc 0) = (n < 10)"
  by (subst str_nat.simps) (simp add: str_nat_nonempty)

lemma str_nat_inj: "str_nat m = str_nat n \<Longrightarrow> m = n"
proof (induction m arbitrary: n rule: str_nat.induct)
  case (1 m)
  show ?case
  proof (cases "m < 10")
    case True
    then have "length (str_nat m) = Suc 0" by (simp add: str_nat_length1)
    then have n: "n < 10" using "1.prems" by (simp add: str_nat_length1)
    from True n "1.prems" show ?thesis
      by (subst (asm) str_nat.simps, subst (asm) (2) str_nat.simps)
         (simp add: digit_char_inj)
  next
    case False
    then have "length (str_nat m) \<noteq> Suc 0" by (simp add: str_nat_length1)
    then have n: "\<not> n < 10" using "1.prems" by (simp add: str_nat_length1)
    have "str_nat (m div 10) @ [digit_char (m mod 10)] =
          str_nat (n div 10) @ [digit_char (n mod 10)]"
      using False n "1.prems"
      by (subst (asm) str_nat.simps, subst (asm) (2) str_nat.simps) simp
    then have a: "str_nat (m div 10) = str_nat (n div 10)"
      and b: "digit_char (m mod 10) = digit_char (n mod 10)"
      by simp_all
    from "1.IH" [OF False a] have "m div 10 = n div 10" .
    moreover from b have "m mod 10 = n mod 10" by (intro digit_char_inj) simp_all
    ultimately show ?thesis by (metis div_mult_mod_eq)
  qed
qed

lemma path_join_inj:
  "path_join d (b @ CHR ''_'' # x) = path_join d (b @ CHR ''_'' # y) \<Longrightarrow> x = y"
  by (cases b) (auto simp: path_join_def startswith_def split: if_splits)

lemma candidate_inj:
  "path_join d (candidate b e m) = path_join d (candidate b e n) \<Longrightarrow> m = n"
  unfolding candidate_def
  using path_join_inj [of d b "str_nat m @ e" "str_nat n @ e"] str_nat_inj by simp

definition taken_from :: "filesystem \<Rightarrow> string \<Rightarrow> string \<Rightarrow> string \<Rightarrow> nat \<Rightarrow> nat set" where
  \<comment> \<open>The counters from \<open>c\<close> on whose candidate exists: what the loop still has to pass.\<close>
  "taken_from fs d b e c = {k. c \<le> k \<and> path_exists fs (path_join d (candidate b e k))}"

lemma finite_taken_from: "finite (taken_from fs d b e c)"
proof -
  have "taken_from fs d b e c \<subseteq> (\<lambda>k. path_join d (candidate b e k)) -` (fst ` set fs)"
    by (auto simp: taken_from_def path_exists_def map_of_eq_None_iff)
  moreover have "finite ((\<lambda>k. path_join d (candidate b e k)) -` (fst ` set fs))"
    by (rule finite_vimageI) (auto simp: inj_on_def dest: candidate_inj)
  ultimately show ?thesis by (rule finite_subset)
qed

lemma taken_from_step:
  "taken_from fs d b e c =
     (if path_exists fs (path_join d (candidate b e c))
      then insert c (taken_from fs d b e (Suc c))
      else taken_from fs d b e (Suc c))"
  by (auto simp: taken_from_def Suc_le_eq le_less)

lemma card_taken_from_step:
  "card (taken_from fs d b e c) =
     card (taken_from fs d b e (Suc c)) +
     (if path_exists fs (path_join d (candidate b e c)) then 1 else 0)"
proof -
  have "c \<notin> taken_from fs d b e (Suc c)" by (simp add: taken_from_def)
  then show ?thesis
    by (subst taken_from_step) (simp add: finite_taken_from)
qed

function unique_loop ::
  "filesystem \<Rightarrow> string \<Rightarrow> string \<Rightarrow> string \<Rightarrow> string \<Rightarrow> nat \<Rightarrow> string" where
  \<comment> \<open>The \<open>while\<close> loop of \<open>get_unique_filename\<close>, on \<open>unique_filename\<close> and \<open>counter\<close>.\<close>
  "unique_loop fs output_dir base ext unique_filename counter =
     (if path_exists fs (path_join output_dir unique_filename)
      then unique_loop fs output_dir base ext (candidate base ext counter) (counter + 1)
      else unique_filename)"
  by pat_completeness auto
termination
proof (relation "measure (\<lambda>(fs, d, b, e, u, c).
        card (taken_from fs d b e c) + (if path_exists fs (path_join d u) then 1 else 0))")
  show "wf (measure (\<lambda>(fs, d, b, e, u, c).
        card (taken_from fs d b e c) + (if path_exists fs (path_join d u) then 1 else 0)))"
    by simp
next
  fix fs :: filesystem and output_dir base ext unique_filename :: string and counter :: nat
  assume "path_exists fs (path_join output_dir unique_filename)"
  then show "((fs, output_dir, base, ext, candidate base ext counter, counter + 1),
              (fs, output_dir, base, ext, unique_filename, counter))
            \<in> measure (\<lambda>(fs, d, b, e, u, c).
        card (taken_from fs d b e c) + (if path_exists fs (path_join d u) then 1 else 0))"
    using card_taken_from_step [of fs output_dir base ext counter] by simp
qed

declare unique_loop.simps [simp del]

definition get_unique_filename :: "filesystem \<Rightarrow> string \<Rightarrow> string \<Rightarrow> string" where
  "get_unique_filename fs output_dir base_filename =
     (let (base, ext) = splitext base_filename
      in unique_loop fs output_dir base ext base_filename 1)"

section \<open>The filters of filescooper\<close>

definition file_ext :: "library \<Rightarrow> string \<Rightarrow> string" where
  \<comment> \<open>\<open>os.path.splitext(filename)[1].lower().lstrip('.')\<close>\<close>
  "file_ext L filename = lstrip_dot (lower L (snd (splitext filename)))"

definition allowed_extension :: "library \<Rightarrow> string \<Rightarrow> string set \<Rightarrow> bool" where
  "allowed_extension L filename allowed_types =
     (if allowed_types = {''*''} then True
      else let ext = file_ext L filename
           in ext \<in> allowed_types)"

definition allowed_types_of :: "library \<Rightarrow> string \<Rightarrow> string set" where
  \<comment> \<open>\<open>{t.strip().lower() for t in args.types.split(',')}\<close>\<close>
  "allowed_types_of L types =
     set (map (\<lambda>t. lower L (strip L t)) (split_on CHR '','' types))"

section \<open>Rendering\<close>

record Color =
  BOLD :: string
  GREEN :: string
  YELLOW :: string
  RED :: string
  RESET :: string

definition Color_init :: "bool \<Rightarrow> Color" where
  \<comment> \<open>\<open>Color.__init__\<close>: the ANSI escapes (\<open>\033\<close> is byte 27), or all empty.\<close>
  "Color_init enable =
     (if enable
      then \<lparr>BOLD = CHR 0x1B # ''[1m'', GREEN = CHR 0x1B # ''[92m'', YELLOW = CHR 0x1B # ''[93m'',
            RED = CHR 0x1B # ''[91m'', RESET = CHR 0x1B # ''[0m''\<rparr>
      else \<lparr>BOLD = [], GREEN = [], YELLOW = [], RED = [], RESET = []\<rparr>)"

definition colorize_status :: "int \<Rightarrow> Color \<Rightarrow> string" where
  "colorize_status code color =
     (if 200 \<le> code \<and> code < 300 then GREEN color @ str_int code @ RESET color
      else if 300 \<le> code \<and> code < 400 then YELLOW color @ str_int code @ RESET color
      else RED color @ str_int code @ RESET color)"

definition check_mark :: string where
  \<comment> \<open>U+2713\<close>
  "check_mark = [CHR 0xE2, CHR 0x9C, CHR 0x93]"

definition ballot_x :: string where
  \<comment> \<open>U+2717\<close>
  "ballot_x = [CHR 0xE2, CHR 0x9C, CHR 0x97]"

definition right_arrow :: string where
  \<comment> \<open>U+2192\<close>
  "right_arrow = [CHR 0xE2, CHR 0x86, CHR 0x92]"

section \<open>One download task\<close>

definition DESKTOP_USER_AGENTS :: "string list" where
  "DESKTOP_USER_AGENTS =
     [''Mozilla/5.0 (Windows NT 10.0; Win64; x64) AppleWebKit/537.36 (KHTML, like Gecko) Chrome/122.0.0.0 Safari/537.36'',
      ''Mozilla/5.0 (Macintosh; Intel Mac OS X 13_4) AppleWebKit/605.1.15 (KHTML, like Gecko) Version/16.4 Safari/605.1.15'',
      ''Mozilla/5.0 (X11; Linux x86_64) AppleWebKit/537.36 (KHTML, like Gecko) Chrome/121.0.0.0 Safari/537.36'',
      ''Mozilla/5.0 (Windows NT 10.0; rv:115.0) Gecko/20100101 Firefox/115.0'',
      ''Mozilla/5.0 (Macintosh; Intel Mac OS X 12_7) AppleWebKit/605.1.15 (KHTML, like Gecko) Version/16.0 Safari/605.1.15'']"

definition MOBILE_USER_AGENTS :: "string list" where
  "MOBILE_USER_AGENTS =
     [''Mozilla/5.0 (iPhone; CPU iPhone OS 17_0 like Mac OS X) AppleWebKit/605.1.15 (KHTML, like Gecko) Version/17.0 Mobile/15E148 Safari/604.1'',
      ''Mozilla/5.0 (Linux; Android 13; Pixel 6) AppleWebKit/537.36 (KHTML, like Gecko) Chrome/122.0.0.0 Mobile Safari/537.36'',
      ''Mozilla/5.0 (Linux; Android 12; SM-G991B) AppleWebKit/537.36 (KHTML, like Gecko) Chrome/120.0.0.0 Mobile Safari/537.36'',
      ''Mozilla/5.0 (iPad; CPU OS 16_5 like Mac OS X) AppleWebKit/605.1.15 (KHTML, like Gecko) Version/16.0 Mobile/15E148 Safari/604.1'']"

text \<open>
  \<open>random_ua\<close> is \<open>'desktop'\<close>, \<open>'mobile'\<close> or \<open>False\<close>.
\<close>

datatype random_ua = Desktop | Mobile | Off

record response =
  status_code :: int
  content :: string

text \<open>
  What \<open>download_file\<close> hands back: a 3-tuple on success, a bare string when the file is
  skipped or the download failed, and \<open>None\<close> when the loop body never ran.
\<close>

datatype returned = RTuple string int nat | RStr string | RNone

text \<open>
  What the task cannot decide by itself is a parameter of the task: the answer of
  \<open>requests.get\<close> at each attempt (the text of the exception raised, or the response),
  the draw of \<open>random.choice\<close>, and whether creating the directory or writing the file
  raises at that attempt.
\<close>

type_synonym headers = "string \<rightharpoonup> string"

type_synonym proxies = "(string \<rightharpoonup> string) option"

record network =
  requests_get :: "nat \<Rightarrow> string \<Rightarrow> headers \<Rightarrow> proxies \<Rightarrow> string + response"
  random_index :: "nat \<Rightarrow> nat"
  os_error :: "nat \<Rightarrow> string option"

definition random_choice :: "nat \<Rightarrow> 'a list \<Rightarrow> 'a" where
  \<comment> \<open>\<open>random.choice\<close> on a non-empty list, the draw given.\<close>
  "random_choice r xs = xs ! (r mod length xs)"

record task_state =
  hdrs :: headers
  disk :: filesystem
  slept :: "nat list"
  tries :: nat

definition bound_set :: "int option \<Rightarrow> bool" where
  \<comment> \<open>The truth value of \<open>min_size\<close> or \<open>max_size\<close>: false for \<open>None\<close> and for 0.\<close>
  "bound_set b = (case b of None \<Rightarrow> False | Some n \<Rightarrow> n \<noteq> 0)"

definition with_user_agent :: "network \<Rightarrow> random_ua \<Rightarrow> nat \<Rightarrow> headers \<Rightarrow> headers" where
  \<comment> \<open>The headers as the attempt sends them: \<open>headers['User-Agent']\<close> is set to a random
      entry of the pool when \<open>random_ua\<close> names one.\<close>
  "with_user_agent N random_ua attempt h =
     (case random_ua of
        Desktop \<Rightarrow>
          h(''User-Agent'' \<mapsto> random_choice (random_index N attempt) DESKTOP_USER_AGENTS)
      | Mobile \<Rightarrow>
          h(''User-Agent'' \<mapsto> random_choice (random_index N attempt) MOBILE_USER_AGENTS)
      | Off \<Rightarrow> h)"

definition success_line :: "library \<Rightarrow> string \<Rightarrow> string \<Rightarrow> nat \<Rightarrow> string \<Rightarrow> string" where
  "success_line L filename status_colored content_length url =
     ''['' @ check_mark @ ''] '' @ ljust 30 filename @ '' '' @ right_arrow @ '' '' @
     status_colored @ '' ('' @ format_size L (int content_length) @ '')  ('' @ url @ '')''"

definition download_attempt ::
  "library \<Rightarrow> network \<Rightarrow> string \<Rightarrow> string \<Rightarrow> proxies \<Rightarrow> Color \<Rightarrow> string set \<Rightarrow>
   int option \<Rightarrow> int option \<Rightarrow> random_ua \<Rightarrow> nat \<Rightarrow> task_state \<Rightarrow>
   (string + returned) \<times> task_state" where
  \<comment> \<open>The \<open>try\<close> block of \<open>download_file\<close> at one attempt: \<open>Inl\<close> the text of the exception
      it raises, \<open>Inr\<close> the value it returns.\<close>
  "download_attempt L N url output_dir proxies color allowed_types min_size max_size
     random_ua attempt st =
     (let h = with_user_agent N random_ua attempt (hdrs st);
          st1 = st\<lparr>hdrs := h, tries := tries st + 1\<rparr>
      in case requests_get N attempt url h proxies of
           Inl e \<Rightarrow> (Inl e, st1)
         | Inr response \<Rightarrow>
             (let status_colored = colorize_status (status_code response) color;
                  content_length = length (content response)
              in if bound_set min_size \<and> int content_length < the min_size
                 then (Inr (RStr (''[!] Skipped (too small < '' @
                         format_size L (the min_size) @ ''): '' @ url)), st1)
                 else if bound_set max_size \<and> int content_length > the max_size
                 then (Inr (RStr (''[!] Skipped (too large > '' @
                         format_size L (the max_size) @ ''): '' @ url)), st1)
                 else (case urlparse_path L url of
                         Inl e \<Rightarrow> (Inl e, st1)
                       | Inr path \<Rightarrow>
                           (let filename = basename path
                            in if filename = []
                               then (Inr (RStr (''[!] Skipped (no filename): '' @ url)), st1)
                               else if \<not> allowed_extension L filename allowed_types
                               then (Inr (RStr (''[!] Skipped (not allowed type): '' @ url)),
                                     st1)
                               else (case os_error N attempt of
                                       Some e \<Rightarrow> (Inl e, st1)
                                     | None \<Rightarrow>
                                         (let filename' =
                                                get_unique_filename (disk st1) output_dir filename;
                                              filepath = path_join output_dir filename'
                                          in (Inr (RTuple
                                                (success_line L filename' status_colored
                                                   content_length url)
                                                (status_code response) content_length),
                                              st1\<lparr>disk := write_file (disk st1) filepath
                                                     (content response)\<rparr>)))))))"

definition failed_line :: "string \<Rightarrow> int \<Rightarrow> string \<Rightarrow> string" where
  "failed_line url retries e =
     ''['' @ ballot_x @ ''] Failed to download '' @ url @ '' after '' @ str_int retries @
     '' attempt(s): '' @ e"

function download_loop ::
  "library \<Rightarrow> network \<Rightarrow> string \<Rightarrow> string \<Rightarrow> proxies \<Rightarrow> int \<Rightarrow> Color \<Rightarrow> string set \<Rightarrow>
   int option \<Rightarrow> int option \<Rightarrow> random_ua \<Rightarrow> nat \<Rightarrow> task_state \<Rightarrow> returned \<times> task_state" where
  \<comment> \<open>\<open>for attempt in range(1, retries + 1)\<close>, from \<open>attempt\<close> on: the value returned, with
      the sleeps and attempts made.\<close>
  "download_loop L N url output_dir proxies retries color allowed_types min_size max_size
     random_ua attempt st =
     (if int attempt > retries then (RNone, st)
      else (case download_attempt L N url output_dir proxies color allowed_types min_size
                   max_size random_ua attempt st of
              (Inr r, st1) \<Rightarrow> (r, st1)
            | (Inl e, st1) \<Rightarrow>
                if int attempt < retries
                then download_loop L N url output_dir proxies retries color allowed_types
                       min_size max_size random_ua (attempt + 1)
                       (st1\<lparr>slept := slept st1 @ [2 ^ attempt]\<rparr>)
                else (RStr (failed_line url retries e), st1)))"
  by pat_completeness auto
termination
  by (relation "measure (\<lambda>(L, N, url, output_dir, proxies, retries, color, allowed_types,
        min_size, max_size, random_ua, attempt, st). nat (retries + 1 - int attempt))") auto

declare download_loop.simps [simp del]

definition download_file ::
  "library \<Rightarrow> network \<Rightarrow> filesystem \<Rightarrow> string \<Rightarrow> headers \<Rightarrow> string \<Rightarrow> proxies \<Rightarrow> int \<Rightarrow>
   Color \<Rightarrow> string set \<Rightarrow> int option \<Rightarrow> int option \<Rightarrow> random_ua \<Rightarrow> returned \<times> task_state" where
  \<comment> \<open>\<open>download_file\<close>, run on the directory \<open>fs\<close>.\<close>
  "download_file L N fs url headers output_dir proxies retries color allowed_types min_size
     max_size random_ua =
     download_loop L N url output_dir proxies retries color allowed_types min_size max_size
       random_ua 1 \<lparr>hdrs = headers, disk = fs, slept = [], tries = 0\<rparr>"

section \<open>The run\<close>

record args =
  args_urls :: "string list"
  args_file :: "string option"
  args_output :: string
  args_header :: "string list"
  args_proxy :: "string option"
  args_threads :: int
  args_retries :: int
  args_log_file :: "string option"
  args_no_color :: bool
  args_types :: string
  args_random_useragent :: bool
  args_min_size :: "string option"
  args_max_size :: "string option"
  args_mobile_useragent :: bool

text \<open>
  The world of a run: the library and the directory as above; the network of each task, by
  its place in the submission order; the rank at which \<open>as_completed\<close> yields each future;
  the lines of a URL file (or the text of the exception reading it raises);
  \<open>int(float(s) * m)\<close> (or the text of the exception); the timestamp of the default log
  name; and whether opening the log file raises. A run is what it prints on standard
  output, the tasks it submitted, the values they returned in completion order, the log
  file and its lines, the directory it leaves and the exception that ended it, if one did.
  The progress bar is written to standard error and is left out.
\<close>

record world =
  lib :: library
  net :: "nat \<Rightarrow> network"
  completion_rank :: "nat \<Rightarrow> nat"
  read_lines :: "string \<Rightarrow> string + string list"
  float_int :: "string \<Rightarrow> int \<Rightarrow> string + int"
  timestamp :: string
  log_error :: "string option"
  disk0 :: filesystem

datatype exn = ValueError_unpack | TypeError_unpack | Raised string

fun parse_headers_from :: "library \<Rightarrow> headers \<Rightarrow> string list \<Rightarrow> headers" where
  "parse_headers_from L h [] = h"
| "parse_headers_from L h (item # rest) =
     (if CHR '':'' \<in> set item
      then (let key = takeWhile (\<lambda>c. c \<noteq> CHR '':'') item;
                val = tl (dropWhile (\<lambda>c. c \<noteq> CHR '':'') item)
            in parse_headers_from L (h(strip L key \<mapsto> strip L val)) rest)
      else parse_headers_from L h rest)"

definition parse_headers :: "library \<Rightarrow> string list \<Rightarrow> headers" where
  "parse_headers L header_list = parse_headers_from L Map.empty header_list"

definition read_urls_from_file :: "world \<Rightarrow> string \<Rightarrow> string list \<times> string list" where
  \<comment> \<open>What it prints, and the list it returns.\<close>
  "read_urls_from_file W filepath =
     (case read_lines W filepath of
        Inr ls \<Rightarrow> ([], filter (\<lambda>l. l \<noteq> []) (map (strip (lib W)) ls))
      | Inl e \<Rightarrow>
          ([''['' @ ballot_x @ ''] Failed to read file '' @ [CHR 0x27] @ filepath @
            [CHR 0x27] @ '': '' @ e], []))"

definition parse_size :: "world \<Rightarrow> string option \<Rightarrow> string + int option" where
  "parse_size W size_str =
     (case size_str of
        None \<Rightarrow> Inr None
      | Some s0 \<Rightarrow>
          if s0 = [] then Inr None
          else (let s = upper (lib W) (strip (lib W) s0);
                    (multiplier, digits) =
                      (if endswith s ''KB'' then (1024, take (length s - 2) s)
                       else if endswith s ''MB'' then (1024 ^ 2, take (length s - 2) s)
                       else if endswith s ''GB'' then (1024 ^ 3, take (length s - 2) s)
                       else (1, s))
                in case float_int W digits multiplier of
                     Inl e \<Rightarrow> Inl e
                   | Inr n \<Rightarrow> Inr (Some n)))"

definition log_path :: "world \<Rightarrow> string option \<Rightarrow> string" where
  \<comment> \<open>The name \<open>setup_log_file\<close> opens.\<close>
  "log_path W given =
     (case given of
        Some p \<Rightarrow> if p = [] then path_join ''logs'' (''filescooper_'' @ timestamp W @ ''.log'')
                  else p
      | None \<Rightarrow> path_join ''logs'' (''filescooper_'' @ timestamp W @ ''.log''))"

fun run_tasks ::
  "world \<Rightarrow> headers \<Rightarrow> string \<Rightarrow> proxies \<Rightarrow> int \<Rightarrow> Color \<Rightarrow> string set \<Rightarrow> int option \<Rightarrow>
   int option \<Rightarrow> random_ua \<Rightarrow> nat \<Rightarrow> string list \<Rightarrow> filesystem \<Rightarrow> returned list \<times> filesystem" where
  \<comment> \<open>The pool, one task after another in submission order (the schedule of one worker):
      each task gets its own copy of the headers and the directory the tasks before left.\<close>
  "run_tasks W headers output_dir proxies retries color allowed_types min_size max_size
     random_ua i [] fs = ([], fs)"
| "run_tasks W headers output_dir proxies retries color allowed_types min_size max_size
     random_ua i (url # urls) fs =
     (let (r, st) = download_file (lib W) (net W i) fs url headers output_dir proxies retries
                      color allowed_types min_size max_size random_ua;
          (rs, fs') = run_tasks W headers output_dir proxies retries color allowed_types
                        min_size max_size random_ua (Suc i) urls (disk st)
      in (r # rs, fs'))"

definition as_completed :: "world \<Rightarrow> 'a list \<Rightarrow> 'a list" where
  \<comment> \<open>The futures in the order they are yielded: any order, by the world's ranks.\<close>
  "as_completed W xs = map snd (sort_key (\<lambda>(i, x). completion_rank W i) (enumerate 0 xs))"

record tally =
  results :: "string list"
  log_lines :: "string list"
  total_downloaded :: nat
  total_bytes :: nat

fun consume :: "tally \<Rightarrow> returned list \<Rightarrow> (exn \<times> tally) + tally" where
  \<comment> \<open>The loop over the completed futures. Unpacking into three names works on a 3-tuple
      and on a string of three characters, and raises on anything else.\<close>
  "consume t [] = Inr t"
| "consume t (RTuple result status sz # rs) =
     consume (t\<lparr>results := results t @ [result],
               log_lines := log_lines t @ [result @ [CHR 0x0A]],
               total_downloaded :=
                 (if status = 200 \<and> sz > 0 then total_downloaded t + 1 else total_downloaded t),
               total_bytes :=
                 (if status = 200 \<and> sz > 0 then total_bytes t + sz else total_bytes t)\<rparr>) rs"
| "consume t (RStr s # rs) =
     (case codepoints s of
        [result, status, sz] \<Rightarrow>
          consume (t\<lparr>results := results t @ [result],
                    log_lines := log_lines t @ [result @ [CHR 0x0A]]\<rparr>) rs
      | _ \<Rightarrow> Inl (ValueError_unpack, t))"
| "consume t (RNone # rs) = Inl (TypeError_unpack, t)"

definition summary :: "Color \<Rightarrow> string list \<Rightarrow> string list" where
  \<comment> \<open>The lines printed from \<open>Download Summary\<close> to the last of the three groups.\<close>
  "summary color rs =
     (let successes = filter (\<lambda>r. startswith r (''['' @ check_mark @ '']'')) rs;
          skips = filter (\<lambda>r. startswith r ''[!]'') rs;
          failures = filter (\<lambda>r. startswith r (''['' @ ballot_x @ '']'')) rs
      in [[CHR 0x0A, CHR 0xF0, CHR 0x9F, CHR 0x93, CHR 0x84] @ '' '' @ BOLD color @
            ''Download Summary:'' @ RESET color @ [CHR 0x0A]] @
         (if successes \<noteq> []
          then [GREEN color @ [CHR 0xE2, CHR 0x9C, CHR 0x85] @ '' Successfully downloaded:'' @
                  RESET color @ [CHR 0x0A]] @ successes @ [[]]
          else []) @
         (if skips \<noteq> []
          then [YELLOW color @ [CHR 0xE2, CHR 0x9A, CHR 0xA0, CHR 0xEF, CHR 0xB8, CHR 0x8F] @
                  '' Skipped files:'' @ RESET color @ [CHR 0x0A]] @ skips @ [[]]
          else []) @
         (if failures \<noteq> []
          then [RED color @ [CHR 0xE2, CHR 0x9D, CHR 0x8C] @ '' Failed downloads:'' @
                  RESET color @ [CHR 0x0A]] @ failures @ [[]]
          else []))"

record run =
  stdout :: "string list"
  submitted :: nat
  outcomes :: "returned list"
  log_name :: "string option"
  log_written :: "string list"
  disk_after :: filesystem
  uncaught :: "exn option"

definition gather_urls :: "world \<Rightarrow> args \<Rightarrow> string list \<times> string list" where
  \<comment> \<open>\<open>urls = args.urls or []\<close>, extended by the file's when \<open>args.file\<close> is given: what is
      printed on the way, and the URLs.\<close>
  "gather_urls W A =
     (case args_file A of
        None \<Rightarrow> ([], args_urls A)
      | Some f \<Rightarrow>
          if f = [] then ([], args_urls A)
          else (let (out, more) = read_urls_from_file W f in (out, args_urls A @ more)))"

definition drain :: "world \<Rightarrow> args \<Rightarrow> Color \<Rightarrow> string \<Rightarrow> run \<Rightarrow> run" where
  \<comment> \<open>\<open>main\<close> from the loop over the completed futures to its end: the log lines, the
      summary and the totals, or the exception the loop raises. \<open>so_far\<close> is the run so far.\<close>
  "drain W A color name so_far =
     (case consume \<lparr>results = [], log_lines = [], total_downloaded = 0, total_bytes = 0\<rparr>
             (outcomes so_far) of
        Inl (e, t) \<Rightarrow> so_far\<lparr>log_written := log_lines t, uncaught := Some e\<rparr>
      | Inr t \<Rightarrow>
          so_far\<lparr>log_written := log_lines t,
              stdout := stdout so_far @ summary color (results t) @
                [[CHR 0xF0, CHR 0x9F, CHR 0x93, CHR 0x81] @ '' Saved to: '' @
                   args_output A @ ''/'',
                 [CHR 0xF0, CHR 0x9F, CHR 0x93, CHR 0x9D] @ '' Log saved to: '' @ name] @
                (if total_downloaded t \<noteq> 0
                 then [[CHR 0xF0, CHR 0x9F, CHR 0x93, CHR 0xA6] @
                       '' Total downloaded: '' @ str_nat (total_downloaded t) @
                       '' file(s), '' @ format_size (lib W) (int (total_bytes t))]
                 else [])\<rparr>)"

definition main :: "world \<Rightarrow> args \<Rightarrow> run" where
  "main W A =
     (let headers = parse_headers (lib W) (args_header A);
          proxies = (case args_proxy A of
                       None \<Rightarrow> None
                     | Some p \<Rightarrow> if p = [] then None
                                 else Some [''http'' \<mapsto> p, ''https'' \<mapsto> p]);
          color = Color_init (\<not> args_no_color A);
          allowed_types = allowed_types_of (lib W) (args_types A);
          (out0, urls) = gather_urls W A;
          none = \<lparr>stdout = out0, submitted = 0, outcomes = [], log_name = None,
                  log_written = [], disk_after = disk0 W, uncaught = None\<rparr>
      in if args_random_useragent A \<and> args_mobile_useragent A
         then none\<lparr>stdout := out0 @
                [''[!] You cannot use --random-useragent and --mobile-useragent at the same time.'']\<rparr>
         else (case parse_size W (args_min_size A) of
                 Inl e \<Rightarrow> none\<lparr>uncaught := Some (Raised e)\<rparr>
               | Inr min_size \<Rightarrow>
           (case parse_size W (args_max_size A) of
                 Inl e \<Rightarrow> none\<lparr>uncaught := Some (Raised e)\<rparr>
               | Inr max_size \<Rightarrow>
           if urls = []
           then none\<lparr>stdout := out0 @ [''[!] No URLs provided. Use -u or -f.'']\<rparr>
           else (let out1 = out0 @
                       [[CHR 0x0A, CHR 0xF0, CHR 0x9F, CHR 0x93, CHR 0xA5] @ '' Downloading '' @
                        str_nat (length urls) @ '' file(s) with '' @ str_int (args_threads A) @
                        '' threads...'' @ [CHR 0x0A]]
                 in case log_error W of
                      Some e \<Rightarrow> none\<lparr>stdout := out1, uncaught := Some (Raised e)\<rparr>
                    | None \<Rightarrow>
                if args_threads A \<le> 0
                then none\<lparr>stdout := out1, log_name := Some (log_path W (args_log_file A)),
                          uncaught := Some (Raised ''max_workers must be greater than 0'')\<rparr>
                else
                (let name = log_path W (args_log_file A);
                     (rets, fs) =
                       run_tasks W headers (args_output A) proxies (args_retries A) color
                         allowed_types min_size max_size
                         (if args_random_useragent A then Desktop
                          else if args_mobile_useragent A then Mobile else Off)
                         0 urls (disk0 W)
                 in drain W A color name
                      \<lparr>stdout = out1, submitted = length urls,
                         outcomes = as_completed W rets, log_name = Some name,
                         log_written = [], disk_after = fs, uncaught = None\<rparr>)))))"

section \<open>Reading an outcome\<close>

text \<open>
  The outcome of a task is read off the text it returns: skipped as too small, skipped as
  too large.
\<close>

definition too_small :: "returned \<Rightarrow> bool" where
  "too_small r = (case r of RStr s \<Rightarrow> startswith s ''[!] Skipped (too small'' | _ \<Rightarrow> False)"

definition too_large :: "returned \<Rightarrow> bool" where
  "too_large r = (case r of RStr s \<Rightarrow> startswith s ''[!] Skipped (too large'' | _ \<Rightarrow> False)"

definition skipped_for_size :: "string + returned \<Rightarrow> bool" where
  \<comment> \<open>The attempt returned one of the two size skips (and did not raise).\<close>
  "skipped_for_size out = (case out of Inr r \<Rightarrow> too_small r \<or> too_large r | Inl e \<Rightarrow> False)"

text \<open>
  The extension as the specification words it: the substring after the last dot,
  lowercased, without the dot; empty when the filename has no dot.
\<close>

definition spec_extension :: "library \<Rightarrow> string \<Rightarrow> string" where
  "spec_extension L filename =
     (if CHR ''.'' \<in> set filename
      then lower L (rev (takeWhile (\<lambda>c. c \<noteq> CHR ''.'') (rev filename)))
      else [])"

definition lower_keeps_dots :: "library \<Rightarrow> bool" where
  \<comment> \<open>Two facts of \<open>str.lower\<close> the library parameter may or may not share: a leading dot
      stays in front, and no dot appears where there was none.\<close>
  "lower_keeps_dots L =
     (\<forall>s. str_lower L (CHR ''.'' # s) = CHR ''.'' # str_lower L s \<and>
          (CHR ''.'' \<notin> set s \<longrightarrow> CHR ''.'' \<notin> set (str_lower L s)))"

definition has_stem :: "string \<Rightarrow> bool" where
  \<comment> \<open>Some character other than a dot stands before the last dot of the filename.\<close>
  "has_stem filename =
     list_ex (\<lambda>c. c \<noteq> CHR ''.'') (tl (dropWhile (\<lambda>c. c \<noteq> CHR ''.'') (rev filename)))"

text \<open>
  A success, its line and its bytes; the successes that count towards the totals are those
  with status 200 and a body that is not empty.
\<close>

definition is_success :: "returned \<Rightarrow> bool" where
  "is_success r = (case r of RTuple line status n \<Rightarrow> True | _ \<Rightarrow> False)"

definition qualifies :: "returned \<Rightarrow> bool" where
  "qualifies r = (case r of RTuple line status n \<Rightarrow> status = 200 \<and> n > 0 | _ \<Rightarrow> False)"

definition line_of :: "returned \<Rightarrow> string" where
  "line_of r = (case r of RTuple line status n \<Rightarrow> line | RStr s \<Rightarrow> s | RNone \<Rightarrow> [])"

definition bytes_of :: "returned \<Rightarrow> nat" where
  "bytes_of r = (case r of RTuple line status n \<Rightarrow> n | _ \<Rightarrow> 0)"

definition unpackable :: "returned \<Rightarrow> bool" where
  \<comment> \<open>The value can be unpacked into three names: a 3-tuple, or a string of three
      characters.\<close>
  "unpackable r =
     (case r of RTuple line status n \<Rightarrow> True
      | RStr s \<Rightarrow> length (codepoints s) = 3
      | RNone \<Rightarrow> False)"

definition empty_tally :: tally where
  "empty_tally = \<lparr>results = [], log_lines = [], total_downloaded = 0, total_bytes = 0\<rparr>"

section \<open>A concrete world\<close>

text \<open>
  The inputs the examples below run on: a parser that takes the path of \<open>http://host/path\<close>,
  sizes printed as for a size below 1024, the ASCII case maps and whitespace on every
  string, a server that answers every request with one response, and one that lets every
  request time out.
\<close>

definition example_library :: library where
  "example_library =
     \<lparr>urlparse_path = (\<lambda>u. Inr (dropWhile (\<lambda>c. c \<noteq> CHR ''/'') (drop 7 u))),
      format_size = (\<lambda>n. str_int n @ ''.0 B''),
      str_lower = map lower_char, str_upper = map upper_char,
      str_strip = (\<lambda>s. rev (dropWhile is_space (rev (dropWhile is_space s))))\<rparr>"

definition answering :: "int \<Rightarrow> string \<Rightarrow> network" where
  "answering code body =
     \<lparr>requests_get = (\<lambda>n u h p. Inr \<lparr>status_code = code, content = body\<rparr>),
      random_index = (\<lambda>n. 0), os_error = (\<lambda>n. None)\<rparr>"

definition timing_out :: network where
  "timing_out =
     \<lparr>requests_get = (\<lambda>n u h p. Inl ''timed out''),
      random_index = (\<lambda>n. 0), os_error = (\<lambda>n. None)\<rparr>"

definition fresh_task :: task_state where
  "fresh_task = \<lparr>hdrs = Map.empty, disk = [], slept = [], tries = 0\<rparr>"

definition example_world :: world where
  "example_world =
     \<lparr>lib = example_library,
      net = (\<lambda>i. answering 200 ''abc''),
      completion_rank = (\<lambda>i. i),
      read_lines = (\<lambda>f. Inl ''No such file''),
      float_int = (\<lambda>s m. Inr 0),
      timestamp = ''2024-01-01_00-00-00'',
      log_error = None,
      disk0 = []\<rparr>"

definition example_args :: args where
  "example_args =
     \<lparr>args_urls = [''http://h/a.js''], args_file = None, args_output = ''downloads'',
      args_header = [], args_proxy = None, args_threads = 5, args_retries = 3,
      args_log_file = None, args_no_color = True, args_types = ''js'',
      args_random_useragent = False, args_min_size = None, args_max_size = None,
      args_mobile_useragent = False\<rparr>"

section \<open>Extensions and the wildcard\<close>

lemma rfind_absent: "c \<notin> set s \<Longrightarrow> rfind s c = - 1"
  by (simp add: rfind_def)

lemma rfind_ge: "- 1 \<le> rfind s c"
proof -
  have "length (takeWhile (\<lambda>x. x \<noteq> c) (rev s)) < length s" if "c \<in> set s"
  proof -
    from that have "c \<in> set (rev s)" by simp
    then have "takeWhile (\<lambda>x. x \<noteq> c) (rev s) \<noteq> rev s"
      by (metis (mono_tags, lifting) takeWhile_eq_all_conv)
    moreover have "length (takeWhile (\<lambda>x. x \<noteq> c) (rev s)) \<le> length (rev s)"
      by (rule length_takeWhile_le)
    ultimately show ?thesis
      by (metis length_rev le_neq_implies_less takeWhile_eq_take take_all_iff order_refl)
  qed
  then show ?thesis by (auto simp: rfind_def)
qed

lemma splitext_no_dot: "CHR ''.'' \<notin> set f \<Longrightarrow> splitext f = (f, [])"
  using rfind_ge [of f "CHR ''/''"] by (simp add: splitext_def rfind_absent Let_def)

lemma file_ext_no_dot: "CHR ''.'' \<notin> set f \<Longrightarrow> file_ext L f = []"
  by (simp add: file_ext_def splitext_no_dot lower_def is_ascii_def lstrip_dot_def)

text \<open>
  C9. The wildcard is the set that is exactly \<open>{"*"}\<close>: it allows every filename. A set that
  holds \<open>"*"\<close> and another entry is an ordinary set: a filename is allowed when its
  extension is a member. Under every set but the wildcard, a filename with no dot has the
  extension \<open>""\<close>: it is allowed when \<open>""\<close> is a member, and only then.
\<close>

theorem wildcard_is_exactly_the_singleton:
  "allowed_extension L f {''*''} \<and>
   (''*'' \<in> S \<and> x \<in> S \<and> x \<noteq> ''*'' \<longrightarrow> allowed_extension L f S = (file_ext L f \<in> S)) \<and>
   (S \<noteq> {''*''} \<and> CHR ''.'' \<notin> set f \<longrightarrow> allowed_extension L f S = ('''' \<in> S))"
  by (auto simp: allowed_extension_def file_ext_no_dot)

theorem wildcard_is_exactly_the_singleton_witness:
  "''*'' \<in> allowed_types_of example_library ''*,js'' \<and>
   ''js'' \<in> allowed_types_of example_library ''*,js'' \<and> ''js'' \<noteq> ''*'' \<and>
   allowed_extension example_library ''a.css'' (allowed_types_of example_library ''*,js'') =
     False \<and>
   allowed_types_of example_library ''*,js'' \<noteq> {''*''} \<and> CHR ''.'' \<notin> set ''Makefile'' \<and>
   allowed_extension example_library ''Makefile'' (allowed_types_of example_library ''*,js'') =
     False \<and>
   allowed_extension example_library ''Makefile'' (allowed_types_of example_library ''js,'') =
     True"
  using wildcard_is_exactly_the_singleton [of example_library "''a.css''"
      "allowed_types_of example_library ''*,js''" "''js''"]
    wildcard_is_exactly_the_singleton [of example_library "''Makefile''"
      "allowed_types_of example_library ''*,js''" "''js''"]
    wildcard_is_exactly_the_singleton [of example_library "''Makefile''"
      "allowed_types_of example_library ''js,''" "''js''"]
  by (simp add: allowed_types_of_def strip_def lower_def is_ascii_def lower_char_def
      is_space_def file_ext_def splitext_def rfind_def lstrip_dot_def)

section \<open>Size bounds\<close>

lemma download_attempt_min_zero:
  "download_attempt L N url output_dir proxies color allowed_types (Some 0) max_size random_ua n st =
   download_attempt L N url output_dir proxies color allowed_types None max_size random_ua n st"
  by (simp add: download_attempt_def bound_set_def Let_def split: sum.splits)

lemma download_attempt_max_zero:
  "download_attempt L N url output_dir proxies color allowed_types min_size (Some 0) random_ua n st =
   download_attempt L N url output_dir proxies color allowed_types min_size None random_ua n st"
  by (simp add: download_attempt_def bound_set_def Let_def split: sum.splits)

lemma download_loop_cong:
  assumes "\<And>n st. download_attempt L N url output_dir proxies color allowed_types mn mx random_ua n st =
                  download_attempt L N url output_dir proxies color allowed_types mn' mx' random_ua n st"
  shows "download_loop L N url output_dir proxies retries color allowed_types mn mx random_ua n st =
         download_loop L N url output_dir proxies retries color allowed_types mn' mx' random_ua n st"
  using assms
proof (induction L N url output_dir proxies retries color allowed_types mn mx random_ua n st
    rule: download_loop.induct)
  case (1 L N url output_dir proxies retries color allowed_types min_size max_size random_ua attempt st)
  show ?case
  proof (cases "int attempt > retries")
    case True
    then show ?thesis by (simp add: download_loop.simps)
  next
    case False
    show ?thesis
    proof (cases "download_attempt L N url output_dir proxies color allowed_types min_size
                   max_size random_ua attempt st")
      case (Pair r st1)
      then have other: "download_attempt L N url output_dir proxies color allowed_types mn'
                   mx' random_ua attempt st = (r, st1)"
        using "1.prems" by simp
      show ?thesis
      proof (cases r)
        case (Inr v)
        with False Pair other show ?thesis
          by (simp add: download_loop.simps [of _ _ _ _ _ _ _ _ _ _ _ attempt])
      next
        case (Inl e)
        show ?thesis
        proof (cases "int attempt < retries")
          case True
          have "download_loop L N url output_dir proxies retries color allowed_types min_size
                  max_size random_ua (attempt + 1) (st1\<lparr>slept := slept st1 @ [2 ^ attempt]\<rparr>) =
                download_loop L N url output_dir proxies retries color allowed_types mn'
                  mx' random_ua (attempt + 1) (st1\<lparr>slept := slept st1 @ [2 ^ attempt]\<rparr>)"
            using "1.IH" [OF False Pair [symmetric] Inl True] "1.prems" by simp
          with False Pair other Inl True show ?thesis
            by (simp add: download_loop.simps [of _ _ _ _ _ _ _ _ _ _ _ attempt])
        next
          case F2: False
          with False Pair other Inl show ?thesis
            by (simp add: download_loop.simps [of _ _ _ _ _ _ _ _ _ _ _ attempt])
        qed
      qed
    qed
  qed
qed

lemma download_loop_result:
  assumes att: "\<And>n st r. fst (download_attempt L N url output_dir proxies color allowed_types mn mx
                     random_ua n st) = Inr r \<Longrightarrow> P r"
    and none: "P RNone"
    and failed: "\<And>e. P (RStr (failed_line url retries e))"
  shows "P (fst (download_loop L N url output_dir proxies retries color allowed_types mn mx
                   random_ua n st))"
  using att failed
proof (induction L N url output_dir proxies retries color allowed_types mn mx random_ua n st
    rule: download_loop.induct)
  case (1 L N url output_dir proxies retries color allowed_types min_size max_size random_ua attempt st)
  show ?case
  proof (cases "int attempt > retries")
    case True
    then show ?thesis using none by (simp add: download_loop.simps)
  next
    case False
    show ?thesis
    proof (cases "download_attempt L N url output_dir proxies color allowed_types min_size
                   max_size random_ua attempt st")
      case (Pair r st1)
      show ?thesis
      proof (cases r)
        case (Inr v)
        with Pair have "P v" using "1.prems"(1) [of attempt st v] by simp
        with False Pair Inr show ?thesis
          by (simp add: download_loop.simps [of _ _ _ _ _ _ _ _ _ _ _ attempt])
      next
        case (Inl e)
        show ?thesis
        proof (cases "int attempt < retries")
          case True
          have "P (fst (download_loop L N url output_dir proxies retries color allowed_types
                  min_size max_size random_ua (attempt + 1)
                  (st1\<lparr>slept := slept st1 @ [2 ^ attempt]\<rparr>)))"
            using "1.IH" [OF False Pair [symmetric] Inl True] "1.prems" by blast
          with False Pair Inl True show ?thesis
            by (simp add: download_loop.simps [of _ _ _ _ _ _ _ _ _ _ _ attempt])
        next
          case F2: False
          with False Pair Inl "1.prems"(2) [of e] show ?thesis
            by (simp add: download_loop.simps [of _ _ _ _ _ _ _ _ _ _ _ attempt])
        qed
      qed
    qed
  qed
qed

lemma success_line_not_skip: "\<not> startswith (success_line L f c n u) (''[!] Skipped (too '' @ w)"
  by (simp add: success_line_def startswith_def check_mark_def)

lemma failed_line_not_skip: "\<not> startswith (failed_line u r e) (''[!] Skipped (too '' @ w)"
  by (simp add: failed_line_def startswith_def ballot_x_def)

lemma download_attempt_not_too_small:
  assumes "\<not> bound_set mn"
    and "fst (download_attempt L N url output_dir proxies color allowed_types mn mx
                random_ua n st) = Inr r"
  shows "\<not> too_small r"
  using assms
  by (auto simp: download_attempt_def Let_def too_small_def startswith_def success_line_def
      check_mark_def split: sum.splits if_splits option.splits)

lemma download_attempt_not_too_large:
  assumes "\<not> bound_set mx"
    and "fst (download_attempt L N url output_dir proxies color allowed_types mn mx
                random_ua n st) = Inr r"
  shows "\<not> too_large r"
  using assms
  by (auto simp: download_attempt_def Let_def too_large_def startswith_def success_line_def
      check_mark_def split: sum.splits if_splits option.splits)

lemma failed_line_not_too: "\<not> too_small (RStr (failed_line u r e))" "\<not> too_large (RStr (failed_line u r e))"
  by (simp_all add: too_small_def too_large_def failed_line_def startswith_def ballot_x_def)

lemma parse_size_zero:
  assumes "float_int W ''0'' 1 = Inr 0"
  shows "parse_size W (Some ''0'') = Inr (Some 0)" and "parse_size W None = Inr None"
  using assms
  by (simp_all add: parse_size_def strip_def upper_def is_ascii_def upper_char_def is_space_def
      endswith_def)

text \<open>
  C10. A size bound configured as 0 is not enforced. A task run with the minimum 0 does what
  the task run with no minimum does, and never skips its file as too small; a task run with
  the maximum 0 does what the task run with no maximum does, and never skips its file as
  too large, whatever the size of the body.
\<close>

theorem zero_bound_is_no_bound:
  "download_file L N fs url headers output_dir proxies retries color allowed_types (Some 0)
     max_size random_ua =
   download_file L N fs url headers output_dir proxies retries color allowed_types None
     max_size random_ua \<and>
   download_file L N fs url headers output_dir proxies retries color allowed_types min_size
     (Some 0) random_ua =
   download_file L N fs url headers output_dir proxies retries color allowed_types min_size
     None random_ua \<and>
   \<not> too_small (fst (download_file L N fs url headers output_dir proxies retries color
     allowed_types (Some 0) max_size random_ua)) \<and>
   \<not> too_large (fst (download_file L N fs url headers output_dir proxies retries color
     allowed_types min_size (Some 0) random_ua))"
proof (intro conjI)
  have zero: "\<not> bound_set (Some 0)" by (simp add: bound_set_def)
  have small: "\<not> too_small r"
    if "fst (download_attempt L N url output_dir proxies color allowed_types
      (Some 0) max_size random_ua n st) = Inr r" for n st r
    using zero that by (rule download_attempt_not_too_small)
  have large: "\<not> too_large r"
    if "fst (download_attempt L N url output_dir proxies color allowed_types
      min_size (Some 0) random_ua n st) = Inr r" for n st r
    using zero that by (rule download_attempt_not_too_large)
  have none: "\<not> too_small RNone" "\<not> too_large RNone"
    by (simp_all add: too_small_def too_large_def)
  show "\<not> too_small (fst (download_file L N fs url headers output_dir proxies retries color
     allowed_types (Some 0) max_size random_ua))"
    unfolding download_file_def
    using small none(1) failed_line_not_too(1)
    by (rule download_loop_result [where P = "\<lambda>r. \<not> too_small r"])
  show "\<not> too_large (fst (download_file L N fs url headers output_dir proxies retries color
     allowed_types min_size (Some 0) random_ua))"
    unfolding download_file_def
    using large none(2) failed_line_not_too(2)
    by (rule download_loop_result [where P = "\<lambda>r. \<not> too_large r"])
  show "download_file L N fs url headers output_dir proxies retries color allowed_types (Some 0)
     max_size random_ua =
   download_file L N fs url headers output_dir proxies retries color allowed_types None
     max_size random_ua"
    unfolding download_file_def by (rule download_loop_cong) (rule download_attempt_min_zero)
  show "download_file L N fs url headers output_dir proxies retries color allowed_types min_size
     (Some 0) random_ua =
   download_file L N fs url headers output_dir proxies retries color allowed_types min_size
     None random_ua"
    unfolding download_file_def by (rule download_loop_cong) (rule download_attempt_max_zero)
qed

section \<open>Retries\<close>

lemma download_attempt_raises:
  assumes "requests_get N n url (with_user_agent N random_ua n (hdrs st)) proxies = Inl e"
  shows "download_attempt L N url output_dir proxies color allowed_types mn mx random_ua n st =
         (Inl e, st\<lparr>hdrs := with_user_agent N random_ua n (hdrs st), tries := tries st + 1\<rparr>)"
  using assms by (simp add: download_attempt_def Let_def)

lemma download_loop_all_fail:
  assumes fails: "\<forall>n h. 1 \<le> n \<and> int n \<le> retries \<longrightarrow> requests_get N n url h proxies = Inl (e n)"
    and a: "1 \<le> a" "int a \<le> retries"
  shows "fst (download_loop L N url output_dir proxies retries color allowed_types mn mx
                random_ua a st) = RStr (failed_line url retries (e (nat retries))) \<and>
         tries (snd (download_loop L N url output_dir proxies retries color allowed_types mn mx
                random_ua a st)) = tries st + (nat retries + 1 - a) \<and>
         slept (snd (download_loop L N url output_dir proxies retries color allowed_types mn mx
                random_ua a st)) = slept st @ map (\<lambda>k. 2 ^ k) [a..<nat retries] \<and>
         disk (snd (download_loop L N url output_dir proxies retries color allowed_types mn mx
                random_ua a st)) = disk st"
  using a
proof (induction "nat retries - a" arbitrary: a st)
  case 0
  then have le: "\<not> int a < retries" "\<not> int a > retries" "nat retries + 1 - a = 1"
    "[a..<nat retries] = []" by simp_all
  have "download_attempt L N url output_dir proxies color allowed_types mn mx random_ua a st =
         (Inl (e a), st\<lparr>hdrs := with_user_agent N random_ua a (hdrs st), tries := tries st + 1\<rparr>)"
    using fails "0.prems" by (intro download_attempt_raises) simp
  moreover have "a = nat retries" using 0 by simp
  ultimately show ?case using le
    by (simp add: download_loop.simps [of _ _ _ _ _ _ _ _ _ _ _ "nat retries"])
next
  case (Suc k)
  then have lt: "int a < retries" by simp
  have att: "download_attempt L N url output_dir proxies color allowed_types mn mx random_ua a st =
         (Inl (e a), st\<lparr>hdrs := with_user_agent N random_ua a (hdrs st), tries := tries st + 1\<rparr>)"
    using fails Suc.prems by (intro download_attempt_raises) simp
  have k: "k = nat retries - Suc a" using Suc.hyps(2) by simp
  have range: "[a..<nat retries] = a # [Suc a..<nat retries]"
    using lt by (simp add: upt_conv_Cons)
  note IH = Suc.hyps(1) [OF k, of "st\<lparr>hdrs := with_user_agent N random_ua a (hdrs st),
      tries := tries st + 1, slept := slept st @ [2 ^ a]\<rparr>"]
  have step: "download_loop L N url output_dir proxies retries color allowed_types mn mx
                random_ua a st =
              download_loop L N url output_dir proxies retries color allowed_types mn mx
                random_ua (Suc a) (st\<lparr>hdrs := with_user_agent N random_ua a (hdrs st),
                  tries := tries st + 1, slept := slept st @ [2 ^ a]\<rparr>)"
    using lt att by (simp add: download_loop.simps [of _ _ _ _ _ _ _ _ _ _ _ a])
  show ?case unfolding step using IH lt Suc.prems by (simp add: range)
qed

lemma sum_powers_of_two: "a \<le> b \<Longrightarrow> sum_list (map (\<lambda>k. 2 ^ k) [a..<b]) + 2 ^ a = (2::nat) ^ b"
  by (induction b) (auto simp: le_Suc_eq)

text \<open>
  C2. With a retry count \<open>r \<ge> 1\<close>, a task whose request raises at every attempt makes
  exactly \<open>r\<close> attempts, sleeps \<open>2^1, ..., 2^(r-1)\<close> seconds between them (\<open>2^r - 2\<close> in all,
  no sleep when \<open>r = 1\<close>), writes nothing, and returns the failure line, which carries the
  URL, the count \<open>r\<close> and the text of the exception of the last attempt.
\<close>

theorem every_attempt_fails:
  assumes "1 \<le> retries"
    and "\<forall>n h. 1 \<le> n \<and> int n \<le> retries \<longrightarrow> requests_get N n url h proxies = Inl (e n)"
  shows "fst (download_file L N fs url headers output_dir proxies retries color allowed_types
                min_size max_size random_ua) =
           RStr (failed_line url retries (e (nat retries))) \<and>
         tries (snd (download_file L N fs url headers output_dir proxies retries color
                allowed_types min_size max_size random_ua)) = nat retries \<and>
         slept (snd (download_file L N fs url headers output_dir proxies retries color
                allowed_types min_size max_size random_ua)) =
           map (\<lambda>k. 2 ^ k) [1..<nat retries] \<and>
         sum_list (slept (snd (download_file L N fs url headers output_dir proxies retries color
                allowed_types min_size max_size random_ua))) = 2 ^ nat retries - 2 \<and>
         disk (snd (download_file L N fs url headers output_dir proxies retries color
                allowed_types min_size max_size random_ua)) = fs"
proof -
  have one: "(1::nat) \<le> 1" "int 1 \<le> retries" using assms(1) by simp_all
  note loop = download_loop_all_fail [OF assms(2) one, of L output_dir color allowed_types
      min_size max_size random_ua "\<lparr>hdrs = headers, disk = fs, slept = [], tries = 0\<rparr>"]
  have "sum_list (map (\<lambda>k. 2 ^ k) [1..<nat retries]) + 2 ^ 1 = (2::nat) ^ nat retries"
    using assms(1) by (intro sum_powers_of_two) simp
  then have "sum_list (map (\<lambda>k. 2 ^ k) [1..<nat retries]) = (2::nat) ^ nat retries - 2"
    by simp
  with loop show ?thesis unfolding download_file_def by simp
qed

theorem every_attempt_fails_witness:
  "fst (download_file example_library timing_out [] ''http://h/a.js'' Map.empty ''downloads'' None
          3 (Color_init False) {''js''} None None Off) =
     RStr (''['' @ ballot_x @ ''] Failed to download http://h/a.js after 3 attempt(s): timed out'') \<and>
   tries (snd (download_file example_library timing_out [] ''http://h/a.js'' Map.empty
          ''downloads'' None 3 (Color_init False) {''js''} None None Off)) = 3 \<and>
   slept (snd (download_file example_library timing_out [] ''http://h/a.js'' Map.empty
          ''downloads'' None 3 (Color_init False) {''js''} None None Off)) = [2, 4] \<and>
   slept (snd (download_file example_library timing_out [] ''http://h/a.js'' Map.empty
          ''downloads'' None 1 (Color_init False) {''js''} None None Off)) = []"
  using every_attempt_fails [of 3 timing_out "''http://h/a.js''" None "\<lambda>n. ''timed out''"
      example_library "[]" Map.empty "''downloads''" "Color_init False" "{''js''}" None None Off]
    every_attempt_fails [of 1 timing_out "''http://h/a.js''" None "\<lambda>n. ''timed out''"
      example_library "[]" Map.empty "''downloads''" "Color_init False" "{''js''}" None None Off]
  by (simp add: timing_out_def failed_line_def str_int_def str_nat.simps digit_char_def
      upt_conv_Cons)

section \<open>The two user-agent flags\<close>

text \<open>
  C8. When both \<open>--random-useragent\<close> and \<open>--mobile-useragent\<close> are given, the run prints the
  message that they exclude each other and stops: no task is submitted, no outcome is
  produced, no log file is opened and the directory is left as it was.
\<close>

theorem conflicting_user_agents_abort:
  assumes "args_random_useragent A" and "args_mobile_useragent A"
  shows "submitted (main W A) = 0 \<and> outcomes (main W A) = [] \<and> log_name (main W A) = None \<and>
         log_written (main W A) = [] \<and> disk_after (main W A) = disk0 W \<and>
         uncaught (main W A) = None \<and>
         last (stdout (main W A)) =
           ''[!] You cannot use --random-useragent and --mobile-useragent at the same time.''"
  using assms by (simp add: main_def Let_def split: prod.splits option.splits)

theorem conflicting_user_agents_abort_witness:
  "submitted (main example_world (example_args\<lparr>args_random_useragent := True,
      args_mobile_useragent := True\<rparr>)) = 0 \<and>
   outcomes (main example_world (example_args\<lparr>args_random_useragent := True,
      args_mobile_useragent := True\<rparr>)) = [] \<and>
   stdout (main example_world (example_args\<lparr>args_random_useragent := True,
      args_mobile_useragent := True\<rparr>)) =
     [''[!] You cannot use --random-useragent and --mobile-useragent at the same time.'']"
  using conflicting_user_agents_abort [of "example_args\<lparr>args_random_useragent := True,
      args_mobile_useragent := True\<rparr>" example_world]
  by (simp add: main_def gather_urls_def example_args_def example_world_def Let_def)

text \<open>
  C4, amended. With a minimum and a maximum configured, a received response is skipped for
  its size exactly when the body is shorter than the minimum, or the maximum is not 0 and
  the body is longer than the maximum; so for every maximum other than 0, exactly when
  \<open>S < min\<close> or \<open>S > max\<close>. At \<open>S = min\<close>, at \<open>S = max\<close> and between them the attempt does what
  it does with no bound configured: filtering goes on to the filename and the extension.
\<close>

theorem size_skip_iff_out_of_bounds:
  assumes "requests_get N n url (with_user_agent N random_ua n (hdrs st)) proxies = Inr resp"
  shows "skipped_for_size (fst (download_attempt L N url output_dir proxies color allowed_types
           (Some mn) (Some mx) random_ua n st)) =
           (int (length (content resp)) < mn \<or> (mx \<noteq> 0 \<and> int (length (content resp)) > mx)) \<and>
         (mx \<noteq> 0 \<longrightarrow>
            skipped_for_size (fst (download_attempt L N url output_dir proxies color allowed_types
              (Some mn) (Some mx) random_ua n st)) =
            (int (length (content resp)) < mn \<or> int (length (content resp)) > mx)) \<and>
         (mn \<le> int (length (content resp)) \<and> int (length (content resp)) \<le> mx \<longrightarrow>
            download_attempt L N url output_dir proxies color allowed_types
              (Some mn) (Some mx) random_ua n st =
            download_attempt L N url output_dir proxies color allowed_types
              None None random_ua n st)"
proof -
  let ?len = "int (length (content resp))"
  let ?out = "fst (download_attempt L N url output_dir proxies color allowed_types
           (Some mn) (Some mx) random_ua n st)"
  have iff: "skipped_for_size ?out = (?len < mn \<or> (mx \<noteq> 0 \<and> ?len > mx))"
    using assms
    by (auto simp: download_attempt_def Let_def skipped_for_size_def too_small_def too_large_def
        startswith_def bound_set_def success_line_def check_mark_def
        split: sum.splits option.splits)
  have same: "download_attempt L N url output_dir proxies color allowed_types
              (Some mn) (Some mx) random_ua n st =
            download_attempt L N url output_dir proxies color allowed_types
              None None random_ua n st"
    if "mn \<le> ?len" "?len \<le> mx"
    using assms that by (simp add: download_attempt_def Let_def bound_set_def)
  from iff same show ?thesis by simp
qed

theorem size_skip_iff_out_of_bounds_witness:
  "skipped_for_size (fst (download_attempt example_library (answering 200 ''abc'') ''http://h/a.js''
      ''downloads'' None (Color_init False) {''js''} (Some 3) (Some 3) Off 1 fresh_task)) = False \<and>
   skipped_for_size (fst (download_attempt example_library (answering 200 ''abc'') ''http://h/a.js''
      ''downloads'' None (Color_init False) {''js''} (Some 4) (Some 5) Off 1 fresh_task)) = True \<and>
   skipped_for_size (fst (download_attempt example_library (answering 200 ''abc'') ''http://h/a.js''
      ''downloads'' None (Color_init False) {''js''} (Some 1) (Some 2) Off 1 fresh_task)) = True"
  using size_skip_iff_out_of_bounds [THEN conjunct1, of "answering 200 ''abc''" 1 "''http://h/a.js''" Off
      fresh_task None "\<lparr>status_code = 200, content = ''abc''\<rparr>" example_library "''downloads''"
      "Color_init False" "{''js''}" 3 3]
    size_skip_iff_out_of_bounds [THEN conjunct1, of "answering 200 ''abc''" 1 "''http://h/a.js''" Off
      fresh_task None "\<lparr>status_code = 200, content = ''abc''\<rparr>" example_library "''downloads''"
      "Color_init False" "{''js''}" 4 5]
    size_skip_iff_out_of_bounds [THEN conjunct1, of "answering 200 ''abc''" 1 "''http://h/a.js''" Off
      fresh_task None "\<lparr>status_code = 200, content = ''abc''\<rparr>" example_library "''downloads''"
      "Color_init False" "{''js''}" 1 2]
  by (simp add: answering_def)

text \<open>
  C4 as stated fails for the maximum 0: a body of 3 bytes is longer than the maximum, the
  response is received, and the attempt does not skip the file for its size.
\<close>

theorem size_bounds_counterexample:
  "(int (length ''abc'') < 0 \<or> int (length ''abc'') > 0) \<and>
   requests_get (answering 200 ''abc'') 1 ''http://h/a.js'' Map.empty None =
     Inr \<lparr>status_code = 200, content = ''abc''\<rparr> \<and>
   \<not> skipped_for_size (fst (download_attempt example_library (answering 200 ''abc'')
      ''http://h/a.js'' ''downloads'' None (Color_init False) {''js''} (Some 0) (Some 0) Off 1
      fresh_task))"
  by code_simp

section \<open>Filenames and extensions\<close>

lemma rfind_split: "x \<notin> set zs \<Longrightarrow> rfind (ys @ x # zs) x = int (length ys)"
proof -
  assume "x \<notin> set zs"
  then have "takeWhile (\<lambda>c. c \<noteq> x) (rev zs @ x # rev ys) = rev zs"
    by (subst takeWhile_append2) auto
  then show ?thesis by (simp add: rfind_def)
qed

lemma basename_rev: "basename p = rev (takeWhile (\<lambda>c. c \<noteq> CHR ''/'') (rev p))"
proof (cases "CHR ''/'' \<in> set p")
  case False
  then have tw: "takeWhile (\<lambda>c. c \<noteq> CHR ''/'') (rev p) = rev p"
    by (subst takeWhile_eq_all_conv) auto
  show ?thesis unfolding tw using False by (simp add: basename_def rfind_absent)
next
  case True
  then obtain ys zs where p: "p = ys @ CHR ''/'' # zs" and zs: "CHR ''/'' \<notin> set zs"
    by (meson split_list_last)
  have "takeWhile (\<lambda>c. c \<noteq> CHR ''/'') (rev zs @ CHR ''/'' # rev ys) = rev zs"
    using zs by (subst takeWhile_append2) auto
  moreover have "nat (int (length ys) + 1) = Suc (length ys)" by simp
  ultimately show ?thesis using zs by (simp add: basename_def p rfind_split)
qed

lemma basename_no_slash: "CHR ''/'' \<notin> set (basename p)"
  unfolding basename_rev using set_takeWhileD by fastforce

lemma basename_empty: "(basename p = []) = (p = [] \<or> last p = CHR ''/'')"
proof (cases p rule: rev_cases)
  case Nil
  then show ?thesis by (simp add: basename_rev)
next
  case (snoc xs x)
  then show ?thesis by (simp add: basename_rev)
qed

lemma lower_char_dot: "(lower_char c = CHR ''.'') = (c = CHR ''.'')"
  by (simp add: lower_char_def split: option.splits if_splits)

lemma lower_after_dot:
  assumes "CHR ''.'' \<notin> set s" and "is_ascii s \<or> lower_keeps_dots L"
  shows "lstrip_dot (lower L (CHR ''.'' # s)) = lower L s"
proof (cases "is_ascii s")
  case True
  then have both: "lower L (CHR ''.'' # s) = CHR ''.'' # map lower_char s"
    "lower L s = map lower_char s"
    by (simp_all add: lower_def is_ascii_def lower_char_def)
  from assms(1) have "\<forall>c \<in> set (map lower_char s). c \<noteq> CHR ''.''"
    by (auto simp: lower_char_dot)
  then have "dropWhile (\<lambda>c. c = CHR ''.'') (map lower_char s) = map lower_char s"
    by (cases "map lower_char s") simp_all
  then show ?thesis by (simp add: both lstrip_dot_def)
next
  case False
  with assms(2) have keeps: "lower_keeps_dots L" by simp
  from False have both: "lower L (CHR ''.'' # s) = CHR ''.'' # str_lower L s"
    "lower L s = str_lower L s"
    using keeps by (simp_all add: lower_def is_ascii_def lower_keeps_dots_def)
  from keeps assms(1) have "CHR ''.'' \<notin> set (str_lower L s)"
    by (simp add: lower_keeps_dots_def)
  then have "dropWhile (\<lambda>c. c = CHR ''.'') (str_lower L s) = str_lower L s"
    by (cases "str_lower L s") auto
  then show ?thesis by (simp add: both lstrip_dot_def)
qed

lemma file_ext_split:
  assumes "CHR ''/'' \<notin> set pre" "CHR ''/'' \<notin> set post" "CHR ''.'' \<notin> set post"
    and "is_ascii post \<or> lower_keeps_dots L"
  shows "file_ext L (pre @ CHR ''.'' # post) =
         (if list_ex (\<lambda>c. c \<noteq> CHR ''.'') pre then lower L post else [])"
proof -
  have sep: "rfind (pre @ CHR ''.'' # post) CHR ''/'' = - 1"
    using assms by (simp add: rfind_absent)
  have dot: "rfind (pre @ CHR ''.'' # post) CHR ''.'' = int (length pre)"
    using assms by (simp add: rfind_split)
  have "splitext (pre @ CHR ''.'' # post) =
        (if list_ex (\<lambda>c. c \<noteq> CHR ''.'') pre then (pre, CHR ''.'' # post)
         else (pre @ CHR ''.'' # post, []))"
    by (simp add: splitext_def sep dot)
  moreover have "lstrip_dot (lower L (CHR ''.'' # post)) = lower L post"
    using assms(3,4) by (rule lower_after_dot)
  moreover have "lstrip_dot (lower L []) = []"
    by (simp add: lower_def is_ascii_def lstrip_dot_def)
  ultimately show ?thesis
    by (simp add: file_ext_def)
qed

lemma file_ext_is:
  assumes "CHR ''/'' \<notin> set f" and "is_ascii f \<or> lower_keeps_dots L"
  shows "file_ext L f = (if has_stem f then spec_extension L f else [])"
proof (cases "CHR ''.'' \<in> set f")
  case False
  then have dw: "dropWhile (\<lambda>c. c \<noteq> CHR ''.'') (rev f) = []"
    by (auto simp: dropWhile_eq_Nil_conv)
  have "\<not> has_stem f" unfolding has_stem_def dw by simp
  with False show ?thesis by (simp add: file_ext_no_dot)
next
  case True
  then obtain pre post where f: "f = pre @ CHR ''.'' # post" and post: "CHR ''.'' \<notin> set post"
    by (meson split_list_last)
  have tw: "takeWhile (\<lambda>c. c \<noteq> CHR ''.'') (rev post @ CHR ''.'' # rev pre) = rev post"
    using post by (subst takeWhile_append2) auto
  have dw: "dropWhile (\<lambda>c. c \<noteq> CHR ''.'') (rev post @ CHR ''.'' # rev pre) = CHR ''.'' # rev pre"
    using post by (subst dropWhile_append2) auto
  have stem: "has_stem f = list_ex (\<lambda>c. c \<noteq> CHR ''.'') pre"
    by (simp add: has_stem_def f dw list_ex_iff)
  have spec: "spec_extension L f = lower L post"
    by (simp add: spec_extension_def f tw)
  from assms(1) f have "CHR ''/'' \<notin> set pre" "CHR ''/'' \<notin> set post" by simp_all
  moreover from assms(2) f have "is_ascii post \<or> lower_keeps_dots L"
    by (auto simp: is_ascii_def)
  ultimately show ?thesis
    using file_ext_split [of pre post L] post stem spec by (simp add: f)
qed

text \<open>
  C5, amended. When the path of the URL has no final segment (it is empty or ends in \<open>/\<close>) and
  a response is received, the attempt returns a skip whatever the allowed extensions are:
  the size skip when a size check rejects the body, and \<open>Skipped (no filename)\<close> in every
  other case.
\<close>

theorem no_filename_is_skipped:
  assumes "requests_get N n url (with_user_agent N random_ua n (hdrs st)) proxies = Inr resp"
    and "urlparse_path L url = Inr path"
    and "path = [] \<or> last path = CHR ''/''"
  shows "fst (download_attempt L N url output_dir proxies color allowed_types min_size max_size
                random_ua n st) =
         (if bound_set min_size \<and> int (length (content resp)) < the min_size
          then Inr (RStr (''[!] Skipped (too small < '' @ format_size L (the min_size) @
                 ''): '' @ url))
          else if bound_set max_size \<and> int (length (content resp)) > the max_size
          then Inr (RStr (''[!] Skipped (too large > '' @ format_size L (the max_size) @
                 ''): '' @ url))
          else Inr (RStr (''[!] Skipped (no filename): '' @ url)))"
proof -
  have "basename path = []" using assms(3) by (simp add: basename_empty)
  with assms(1,2) show ?thesis by (simp add: download_attempt_def Let_def)
qed

theorem no_filename_is_skipped_witness:
  "fst (download_attempt example_library (answering 200 ''abc'') ''http://h/''
      ''downloads'' None (Color_init False) {''*''} (Some 3) (Some 3) Off 1 fresh_task) =
     Inr (RStr ''[!] Skipped (no filename): http://h/'') \<and>
   fst (download_attempt example_library (answering 200 ''abc'') ''http://h/''
      ''downloads'' None (Color_init False) {''js''} None (Some 2) Off 1 fresh_task) =
     Inr (RStr ''[!] Skipped (too large > 2.0 B): http://h/'')"
  using no_filename_is_skipped [of "answering 200 ''abc''" 1 "''http://h/''" Off fresh_task None
      "\<lparr>status_code = 200, content = ''abc''\<rparr>" example_library "''/''" "''downloads''"
      "Color_init False" "{''*''}" "Some 3" "Some 3"]
    no_filename_is_skipped [of "answering 200 ''abc''" 1 "''http://h/''" Off fresh_task None
      "\<lparr>status_code = 200, content = ''abc''\<rparr>" example_library "''/''" "''downloads''"
      "Color_init False" "{''js''}" None "Some 2"]
  by (simp add: answering_def example_library_def bound_set_def str_int_def str_nat.simps
      digit_char_def)

text \<open>
  C5 as stated fails under a size bound: for \<open>http://h/\<close>, whose path is \<open>/\<close>, with a minimum
  of 10 bytes and a body of 3, the outcome is the size skip, not \<open>Skipped (no filename)\<close>.
\<close>

theorem no_filename_counterexample:
  "urlparse_path example_library ''http://h/'' = Inr ''/'' \<and>
   requests_get (answering 200 ''abc'') 1 ''http://h/'' Map.empty None =
     Inr \<lparr>status_code = 200, content = ''abc''\<rparr> \<and>
   fst (download_attempt example_library (answering 200 ''abc'') ''http://h/''
      ''downloads'' None (Color_init False) {''js''} (Some 10) None Off 1 fresh_task) =
     Inr (RStr ''[!] Skipped (too small < 10.0 B): http://h/'') \<and>
   fst (download_attempt example_library (answering 200 ''abc'') ''http://h/''
      ''downloads'' None (Color_init False) {''js''} (Some 10) None Off 1 fresh_task) \<noteq>
     Inr (RStr ''[!] Skipped (no filename): http://h/'')"
  by code_simp

text \<open>
  C6, amended. Under an allowed set that is not the wildcard, a response that passed the size
  checks and whose filename has an extension outside the set is \<open>Skipped (not allowed type)\<close>.
  The extension is that of \<open>os.path.splitext\<close>, lowercased by \<open>str.lower\<close>, without its dot:
  the substring after the last dot, lowercased, when some character other than a dot stands
  before that dot, and the empty string otherwise (no dot, or nothing but dots before the
  last one). That reading of the extension holds for every ASCII filename, and for every
  filename when \<open>str.lower\<close> keeps a leading dot in front and brings in no dot.
\<close>

theorem disallowed_extension_is_skipped:
  assumes "requests_get N n url (with_user_agent N random_ua n (hdrs st)) proxies = Inr resp"
    and "\<not> (bound_set min_size \<and> int (length (content resp)) < the min_size)"
    and "\<not> (bound_set max_size \<and> int (length (content resp)) > the max_size)"
    and "urlparse_path L url = Inr path"
    and "basename path \<noteq> []"
    and "allowed_types \<noteq> {''*''}"
    and "file_ext L (basename path) \<notin> allowed_types"
  shows "fst (download_attempt L N url output_dir proxies color allowed_types min_size max_size
                random_ua n st) = Inr (RStr (''[!] Skipped (not allowed type): '' @ url)) \<and>
         (is_ascii (basename path) \<or> lower_keeps_dots L \<longrightarrow>
            file_ext L (basename path) =
              (if has_stem (basename path) then spec_extension L (basename path) else []))"
proof (intro conjI impI)
  have "\<not> allowed_extension L (basename path) allowed_types"
    using assms(6,7) by (simp add: allowed_extension_def)
  with assms(1-5)
  show "fst (download_attempt L N url output_dir proxies color allowed_types min_size max_size
                random_ua n st) = Inr (RStr (''[!] Skipped (not allowed type): '' @ url))"
    by (simp add: download_attempt_def Let_def)
  show "file_ext L (basename path) =
           (if has_stem (basename path) then spec_extension L (basename path) else [])"
    if "is_ascii (basename path) \<or> lower_keeps_dots L"
    using basename_no_slash that by (rule file_ext_is)
qed

lemma example_library_keeps_dots: "lower_keeps_dots example_library"
  unfolding lower_keeps_dots_def
proof (intro allI conjI impI)
  fix s
  show "str_lower example_library (CHR ''.'' # s) = CHR ''.'' # str_lower example_library s"
    by (simp add: example_library_def lower_char_def)
  show "CHR ''.'' \<notin> set (str_lower example_library s)" if "CHR ''.'' \<notin> set s"
  proof
    assume "CHR ''.'' \<in> set (str_lower example_library s)"
    then obtain c where "c \<in> set s" "lower_char c = CHR ''.''"
      by (auto simp: example_library_def)
    with that show False by (simp add: lower_char_dot)
  qed
qed

theorem disallowed_extension_is_skipped_witness:
  "fst (download_attempt example_library (answering 200 ''abc'') ''http://h/a.CSS''
      ''downloads'' None (Color_init False) {''js''} None None Off 1 fresh_task) =
     Inr (RStr ''[!] Skipped (not allowed type): http://h/a.CSS'') \<and>
   is_ascii (basename ''/a.CSS'') \<and>
   lower_keeps_dots example_library \<and>
   file_ext example_library (basename ''/a.CSS'') = ''css'' \<and>
   spec_extension example_library (basename ''/a.CSS'') = ''css'' \<and>
   has_stem (basename ''/a.CSS'')"
proof -
  have "file_ext example_library (basename ''/a.CSS'') = ''css''" "has_stem (basename ''/a.CSS'')"
    "basename ''/a.CSS'' \<noteq> []" "urlparse_path example_library ''http://h/a.CSS'' = Inr ''/a.CSS''"
    "is_ascii (basename ''/a.CSS'')"
    by code_simp+
  then show ?thesis
    using disallowed_extension_is_skipped [of "answering 200 ''abc''" 1 "''http://h/a.CSS''" Off
        fresh_task None "\<lparr>status_code = 200, content = ''abc''\<rparr>" None None example_library
        "''/a.CSS''" "{''js''}" "''downloads''" "Color_init False"]
      example_library_keeps_dots
    by (simp add: answering_def bound_set_def)
qed

text \<open>
  Beyond ASCII the extension is what the library's \<open>str.lower\<close> makes of it: where it maps
  \<open>.\<close> and U+00C9 to \<open>.\<close> and U+00E9, as Python's does, the file \<open>a.\<close>U+00C9 is allowed under the set
  that holds U+00E9.
\<close>

lemma non_ascii_extension_by_library:
  assumes "str_lower L [CHR ''.'', CHR 0xC3, CHR 0x89] = [CHR ''.'', CHR 0xC3, CHR 0xA9]"
  shows "allowed_extension L [CHR ''a'', CHR ''.'', CHR 0xC3, CHR 0x89] {[CHR 0xC3, CHR 0xA9]}"
  using assms
  by (simp add: allowed_extension_def file_ext_def splitext_def rfind_def lower_def is_ascii_def
      lstrip_dot_def)

text \<open>
  C6 as stated fails on a filename that starts with its only dot: for \<open>.htaccess\<close> under
  \<open>--types "js,"\<close> the substring after the last dot, \<open>htaccess\<close>, is not in the set, the set
  is not the wildcard, and yet the file is allowed and not skipped: its extension is
  \<open>""\<close>, a member of the set.
\<close>

theorem extension_after_last_dot_counterexample:
  "allowed_types_of example_library ''js,'' \<noteq> {''*''} \<and>
   urlparse_path example_library ''http://h/.htaccess'' = Inr ''/.htaccess'' \<and>
   basename ''/.htaccess'' = ''.htaccess'' \<and>
   spec_extension example_library ''.htaccess'' = ''htaccess'' \<and>
   spec_extension example_library ''.htaccess'' \<notin> allowed_types_of example_library ''js,'' \<and>
   allowed_extension example_library ''.htaccess'' (allowed_types_of example_library ''js,'') \<and>
   fst (download_attempt example_library (answering 200 ''abc'') ''http://h/.htaccess''
      ''downloads'' None (Color_init False) (allowed_types_of example_library ''js,'') None None
      Off 1 fresh_task) \<noteq> Inr (RStr ''[!] Skipped (not allowed type): http://h/.htaccess'')"
  by code_simp

section \<open>Names that collide\<close>

lemma unique_loop_free:
  "\<not> path_exists fs (path_join output_dir (unique_loop fs output_dir base ext u c))"
proof (induction fs output_dir base ext u c rule: unique_loop.induct)
  case (1 fs output_dir base ext unique_filename counter)
  then show ?case
    by (subst unique_loop.simps) simp
qed

lemma unique_loop_first_free:
  assumes "path_exists fs (path_join output_dir u)"
  shows "\<exists>k\<ge>c. unique_loop fs output_dir base ext u c = candidate base ext k \<and>
           (\<forall>j. c \<le> j \<and> j < k \<longrightarrow> path_exists fs (path_join output_dir (candidate base ext j))) \<and>
           \<not> path_exists fs (path_join output_dir (candidate base ext k))"
  using assms
proof (induction fs output_dir base ext u c rule: unique_loop.induct)
  case (1 fs output_dir base ext unique_filename counter)
  show ?case
  proof (cases "path_exists fs (path_join output_dir (candidate base ext counter))")
    case False
    then have "unique_loop fs output_dir base ext unique_filename counter =
               candidate base ext counter"
      using "1.prems" by (simp add: unique_loop.simps)
    with False show ?thesis by auto
  next
    case True
    from "1.IH" [OF "1.prems" True] obtain k where k: "counter + 1 \<le> k"
      "unique_loop fs output_dir base ext (candidate base ext counter) (counter + 1) =
       candidate base ext k"
      "\<forall>j. counter + 1 \<le> j \<and> j < k \<longrightarrow> path_exists fs (path_join output_dir (candidate base ext j))"
      "\<not> path_exists fs (path_join output_dir (candidate base ext k))"
      by blast
    have "unique_loop fs output_dir base ext unique_filename counter = candidate base ext k"
      using "1.prems" k(2) by (subst unique_loop.simps) simp
    moreover have "\<forall>j. counter \<le> j \<and> j < k \<longrightarrow>
        path_exists fs (path_join output_dir (candidate base ext j))"
      using k(3) True by (metis Suc_eq_plus1 Suc_leI le_neq_implies_less)
    ultimately show ?thesis using k(1,4) by (intro exI [of _ k]) simp
  qed
qed

lemma splitext_append: "fst (splitext f) @ snd (splitext f) = f"
  by (simp add: splitext_def Let_def)

lemma candidate_one: "candidate base ext (Suc 0) = base @ ''_1'' @ ext"
  by (simp add: candidate_def str_nat.simps digit_char_def)

lemma candidate_longer:
  "length (path_join d (base @ ext)) < length (path_join d (candidate base ext k))"
  by (cases base; cases ext)
     (auto simp: path_join_def candidate_def startswith_def endswith_def)

lemma candidate_other_path: "path_join d (candidate base ext k) \<noteq> path_join d (base @ ext)"
  using candidate_longer [of d base ext k] by auto

lemma get_unique_filename_absent:
  "\<not> path_exists fs (path_join d f) \<Longrightarrow> get_unique_filename fs d f = f"
  by (simp add: get_unique_filename_def unique_loop.simps split: prod.splits)

lemma get_unique_filename_free:
  "\<not> path_exists fs (path_join d (get_unique_filename fs d f))"
  by (simp add: get_unique_filename_def unique_loop_free split: prod.splits)

lemma get_unique_filename_first_free:
  assumes "path_exists fs (path_join d f)"
  shows "\<exists>k\<ge>1. get_unique_filename fs d f = candidate (fst (splitext f)) (snd (splitext f)) k \<and>
           (\<forall>j. 1 \<le> j \<and> j < k \<longrightarrow>
              path_exists fs (path_join d (candidate (fst (splitext f)) (snd (splitext f)) j)))"
  using unique_loop_first_free [OF assms, of 1 "fst (splitext f)" "snd (splitext f)"]
  by (auto simp: get_unique_filename_def split: prod.splits)

lemma get_unique_filename_second:
  assumes "path_exists fs (path_join d f)"
    and "\<not> path_exists fs (path_join d (fst (splitext f) @ ''_1'' @ snd (splitext f)))"
  shows "get_unique_filename fs d f = fst (splitext f) @ ''_1'' @ snd (splitext f)"
proof -
  from get_unique_filename_first_free [OF assms(1)] obtain k where k: "1 \<le> k"
    "get_unique_filename fs d f = candidate (fst (splitext f)) (snd (splitext f)) k"
    "\<forall>j. 1 \<le> j \<and> j < k \<longrightarrow>
       path_exists fs (path_join d (candidate (fst (splitext f)) (snd (splitext f)) j))"
    by blast
  have "k = 1"
  proof (rule ccontr)
    assume "k \<noteq> 1"
    with k(1) have "1 < k" by simp
    with k(3) have "path_exists fs (path_join d (candidate (fst (splitext f)) (snd (splitext f)) 1))"
      by simp
    with assms(2) show False by (simp add: candidate_one)
  qed
  with k(2) show ?thesis by (simp add: candidate_one)
qed

text \<open>
  C7, amended. In every directory and for every base filename \<open>name.ext\<close> (split by
  \<open>os.path.splitext\<close>): resolved while \<open>name.ext\<close> is absent, the filename is \<open>name.ext\<close> itself;
  resolved again after \<open>name.ext\<close> has been written, it is \<open>name_1.ext\<close> provided \<open>name_1.ext\<close>
  is absent too, and in general, when \<open>name.ext\<close> exists, it is \<open>name_k.ext\<close> for the first
  \<open>k \<ge> 1\<close> whose name is absent. The resolved name never exists, so the second write leaves
  what the first wrote.
\<close>

theorem collision_free_names:
  "(\<not> path_exists fs (path_join d f) \<longrightarrow> get_unique_filename fs d f = f) \<and>
   (\<not> path_exists fs (path_join d f) \<and>
    \<not> path_exists fs (path_join d (fst (splitext f) @ ''_1'' @ snd (splitext f))) \<longrightarrow>
      get_unique_filename (write_file fs (path_join d f) data) d f =
        fst (splitext f) @ ''_1'' @ snd (splitext f)) \<and>
   fst (splitext f) @ snd (splitext f) = f \<and>
   (path_exists fs (path_join d f) \<longrightarrow>
      (\<exists>k\<ge>1. get_unique_filename fs d f = candidate (fst (splitext f)) (snd (splitext f)) k \<and>
         (\<forall>j. 1 \<le> j \<and> j < k \<longrightarrow>
            path_exists fs (path_join d (candidate (fst (splitext f)) (snd (splitext f)) j))))) \<and>
   \<not> path_exists fs (path_join d (get_unique_filename fs d f)) \<and>
   map_of (write_file (write_file fs (path_join d f) data)
             (path_join d (get_unique_filename (write_file fs (path_join d f) data) d f)) data')
     (path_join d f) = Some data"
proof (intro conjI impI)
  let ?fs1 = "write_file fs (path_join d f) data"
  let ?one = "fst (splitext f) @ ''_1'' @ snd (splitext f)"
  show "get_unique_filename fs d f = f" if "\<not> path_exists fs (path_join d f)"
    using that by (rule get_unique_filename_absent)
  show "get_unique_filename ?fs1 d f = ?one"
    if "\<not> path_exists fs (path_join d f) \<and> \<not> path_exists fs (path_join d ?one)"
  proof (rule get_unique_filename_second)
    show "path_exists ?fs1 (path_join d f)"
      by (simp add: path_exists_def write_file_def)
    have "path_join d ?one \<noteq> path_join d f"
      using candidate_other_path [of d "fst (splitext f)" "snd (splitext f)" "Suc 0"]
      unfolding candidate_one splitext_append .
    with that show "\<not> path_exists ?fs1 (path_join d ?one)"
      by (simp add: path_exists_def write_file_def)
  qed
  show "fst (splitext f) @ snd (splitext f) = f" by (rule splitext_append)
  show "\<exists>k\<ge>1. get_unique_filename fs d f = candidate (fst (splitext f)) (snd (splitext f)) k \<and>
         (\<forall>j. 1 \<le> j \<and> j < k \<longrightarrow>
            path_exists fs (path_join d (candidate (fst (splitext f)) (snd (splitext f)) j)))"
    if "path_exists fs (path_join d f)"
    using that by (rule get_unique_filename_first_free)
  show "\<not> path_exists fs (path_join d (get_unique_filename fs d f))"
    by (rule get_unique_filename_free)
  have "path_exists ?fs1 (path_join d f)" by (simp add: path_exists_def write_file_def)
  with get_unique_filename_free [of ?fs1 d f]
  have "path_join d (get_unique_filename ?fs1 d f) \<noteq> path_join d f" by auto
  then show "map_of (write_file ?fs1 (path_join d (get_unique_filename ?fs1 d f)) data')
     (path_join d f) = Some data"
    by (simp add: write_file_def)
qed

theorem collision_free_names_witness:
  "get_unique_filename [] ''downloads'' ''a.js'' = ''a.js'' \<and>
   get_unique_filename (write_file [] ''downloads/a.js'' ''first'') ''downloads'' ''a.js'' = ''a_1.js'' \<and>
   get_unique_filename [(''downloads/a.tar.gz'', ''x''), (''downloads/a.tar_1.gz'', ''y'')]
     ''downloads'' ''a.tar.gz'' = ''a.tar_2.gz'' \<and>
   map_of (write_file (write_file [] ''downloads/a.js'' ''first'') ''downloads/a_1.js'' ''second'')
     ''downloads/a.js'' = Some ''first''"
proof -
  have ev: "path_join ''downloads'' ''a.js'' = ''downloads/a.js''"
    "splitext ''a.js'' = (''a'', ''.js'')" "\<not> path_exists [] ''downloads/a.js''"
    "\<not> path_exists [] ''downloads/a_1.js''"
    "path_join ''downloads'' ''a_1.js'' = ''downloads/a_1.js''"
    by code_simp+
  have third: "get_unique_filename [(''downloads/a.tar.gz'', ''x''), (''downloads/a.tar_1.gz'', ''y'')]
     ''downloads'' ''a.tar.gz'' = ''a.tar_2.gz''"
    by code_simp
  note names = collision_free_names [of "[]" "''downloads''" "''a.js''" "''first''" "''second''"]
  have first: "get_unique_filename [] ''downloads'' ''a.js'' = ''a.js''"
    using names by (simp add: ev)
  have second: "get_unique_filename (write_file [] ''downloads/a.js'' ''first'') ''downloads''
      ''a.js'' = ''a_1.js''"
    using names by (simp add: ev)
  have kept: "map_of (write_file (write_file [] ''downloads/a.js'' ''first'') ''downloads/a_1.js''
      ''second'') ''downloads/a.js'' = Some ''first''"
    using names by (simp add: ev second)
  from first second third kept show ?thesis by simp
qed

text \<open>
  C7 as stated fails in a directory that already holds \<open>a_1.js\<close>: \<open>a.js\<close> is absent and is
  resolved to itself, and after it is written it is resolved to \<open>a_2.js\<close>, not \<open>a_1.js\<close>.
\<close>

theorem collision_free_names_counterexample:
  "\<not> path_exists [(''downloads/a_1.js'', ''old'')] (path_join ''downloads'' ''a.js'') \<and>
   get_unique_filename [(''downloads/a_1.js'', ''old'')] ''downloads'' ''a.js'' = ''a.js'' \<and>
   path_exists (write_file [(''downloads/a_1.js'', ''old'')] (path_join ''downloads'' ''a.js'') ''new'')
     (path_join ''downloads'' ''a.js'') \<and>
   get_unique_filename
     (write_file [(''downloads/a_1.js'', ''old'')] (path_join ''downloads'' ''a.js'') ''new'')
     ''downloads'' ''a.js'' = ''a_2.js'' \<and>
   get_unique_filename
     (write_file [(''downloads/a_1.js'', ''old'')] (path_join ''downloads'' ''a.js'') ''new'')
     ''downloads'' ''a.js'' \<noteq> ''a_1.js''"
  by code_simp

section \<open>The loop over the completed futures\<close>

text \<open>
  Over successes alone the loop runs to its end: every line is kept and logged, and the two
  totals count exactly the successes with status 200 and a body that is not empty.
\<close>

lemma consume_successes:
  assumes "\<forall>r \<in> set rs. is_success r"
  shows "consume t rs =
         Inr (t\<lparr>results := results t @ map line_of rs,
                log_lines := log_lines t @ map (\<lambda>r. line_of r @ [CHR 0x0A]) rs,
                total_downloaded := total_downloaded t + length (filter qualifies rs),
                total_bytes := total_bytes t + sum_list (map bytes_of (filter qualifies rs))\<rparr>)"
  using assms
proof (induction rs arbitrary: t)
  case Nil
  then show ?case by simp
next
  case (Cons r rs)
  then obtain line status n where r: "r = RTuple line status n"
    by (cases r) (auto simp: is_success_def)
  from Cons.prems have rest: "\<forall>r \<in> set rs. is_success r" by simp
  show ?case
    unfolding r by (simp add: Cons.IH [OF rest] line_of_def qualifies_def bytes_of_def)
qed

text \<open>
  Whatever a task returns that is not a success (a skip line, a failure line or \<open>None\<close>)
  cannot be unpacked into three names.
\<close>

lemma skip_line_long: "length (codepoints (''[!] Skipped ('' @ s)) \<noteq> 3"
  by (simp add: is_continuation_def)

lemma failed_line_long: "length (codepoints (failed_line url retries e)) \<noteq> 3"
  by (simp add: failed_line_def ballot_x_def is_continuation_def)

lemma skip_unpack: "\<not> unpackable (RStr (''[!] Skipped ('' @ s))"
  using skip_line_long [of s] by (simp add: unpackable_def)

lemma download_attempt_returns:
  assumes "fst (download_attempt L N url output_dir proxies color allowed_types mn mx
                  random_ua n st) = Inr r"
  shows "is_success r = unpackable r"
proof -
  have "is_success r \<and> unpackable r \<or> (\<exists>s. r = RStr (''[!] Skipped ('' @ s))"
    using assms
    by (auto simp: download_attempt_def Let_def is_success_def unpackable_def
        split: sum.splits if_splits option.splits)
  then show ?thesis using skip_unpack by (auto simp: is_success_def)
qed

lemma download_file_returns:
  "is_success (fst (download_file L N fs url headers output_dir proxies retries color
     allowed_types mn mx random_ua)) =
   unpackable (fst (download_file L N fs url headers output_dir proxies retries color
     allowed_types mn mx random_ua))"
  unfolding download_file_def
proof (rule download_loop_result [where P = "\<lambda>r. is_success r = unpackable r"])
  show "is_success RNone = unpackable RNone"
    by (simp add: is_success_def unpackable_def)
  show "is_success (RStr (failed_line url retries e)) = unpackable (RStr (failed_line url retries e))"
    for e
    using failed_line_long [of url retries e] by (simp add: is_success_def unpackable_def)
  show "is_success r = unpackable r"
    if "fst (download_attempt L N url output_dir proxies color allowed_types mn mx random_ua n st)
        = Inr r" for n st r
    using that by (rule download_attempt_returns)
qed

lemma run_tasks_returns:
  "r \<in> set (fst (run_tasks W headers output_dir proxies retries color allowed_types mn mx
      random_ua i urls fs)) \<Longrightarrow> is_success r = unpackable r"
proof (induction urls arbitrary: i fs)
  case Nil
  then show ?case by simp
next
  case (Cons url urls)
  obtain r1 st where first: "download_file (lib W) (net W i) fs url headers output_dir proxies
      retries color allowed_types mn mx random_ua = (r1, st)"
    by (cases "download_file (lib W) (net W i) fs url headers output_dir proxies
      retries color allowed_types mn mx random_ua")
  obtain rs fs' where rest: "run_tasks W headers output_dir proxies retries color allowed_types
      mn mx random_ua (Suc i) urls (disk st) = (rs, fs')"
    by (cases "run_tasks W headers output_dir proxies retries color allowed_types
      mn mx random_ua (Suc i) urls (disk st)")
  from Cons.prems first rest have "r = r1 \<or> r \<in> set rs" by simp
  then show ?case
  proof
    assume "r = r1"
    with first download_file_returns [of "lib W" "net W i" fs url headers output_dir proxies
        retries color allowed_types mn mx random_ua]
    show ?thesis by simp
  next
    assume "r \<in> set rs"
    with rest have "r \<in> set (fst (run_tasks W headers output_dir proxies retries color
        allowed_types mn mx random_ua (Suc i) urls (disk st)))" by simp
    then show ?thesis by (rule Cons.IH)
  qed
qed

lemma set_as_completed: "set (as_completed W xs) = set xs"
proof -
  have "set (as_completed W xs) = snd ` set (enumerate 0 xs)"
    by (simp add: as_completed_def)
  also have "\<dots> = set (map snd (enumerate 0 xs))" by (simp only: set_map)
  also have "\<dots> = set xs" by (simp only: map_snd_enumerate)
  finally show ?thesis .
qed

lemma length_as_completed: "length (as_completed W xs) = length xs"
  by (simp add: as_completed_def)

text \<open>
  The loop runs to its end exactly when every value can be unpacked.
\<close>

lemma consume_iff:
  "(\<exists>t'. consume t rs = Inr t') = (\<forall>r \<in> set rs. unpackable r)"
proof (induction rs arbitrary: t)
  case Nil
  then show ?case by simp
next
  case (Cons r rs)
  show ?case
  proof (cases r)
    case (RTuple line status n)
    then show ?thesis using Cons.IH by (simp add: unpackable_def)
  next
    case (RStr s)
    show ?thesis
    proof (cases "codepoints s")
      case Nil
      with RStr show ?thesis by (simp add: unpackable_def)
    next
      case c1: (Cons a as)
      show ?thesis
      proof (cases as)
        case Nil
        with RStr c1 show ?thesis by (simp add: unpackable_def)
      next
        case c2: (Cons b bs)
        show ?thesis
        proof (cases bs)
          case Nil
          with RStr c1 c2 show ?thesis by (simp add: unpackable_def)
        next
          case c3: (Cons c cs)
          show ?thesis
          proof (cases cs)
            case Nil
            with RStr c1 c2 c3 show ?thesis using Cons.IH by (simp add: unpackable_def)
          next
            case (Cons d ds)
            with RStr c1 c2 c3 show ?thesis by (simp add: unpackable_def)
          qed
        qed
      qed
    qed
  next
    case RNone
    then show ?thesis by (simp add: unpackable_def)
  qed
qed

lemma drain_keeps:
  "outcomes (drain W A color name so_far) = outcomes so_far"
  "submitted (drain W A color name so_far) = submitted so_far"
  "disk_after (drain W A color name so_far) = disk_after so_far"
  by (simp_all add: drain_def split: sum.splits prod.splits)

lemma drain_uncaught:
  "uncaught so_far = None \<Longrightarrow>
   (uncaught (drain W A color name so_far) = None) = (\<forall>r \<in> set (outcomes so_far). unpackable r)"
  using consume_iff [of "\<lparr>results = [], log_lines = [], total_downloaded = 0, total_bytes = 0\<rparr>"
      "outcomes so_far"]
  by (auto simp: drain_def split: sum.splits prod.splits)

text \<open>
  A run that submitted its tasks reaches its report exactly when every task succeeded: one
  skipped or failed download ends it with the exception of the unpacking.
\<close>

lemma run_reaches_report_iff:
  assumes "submitted (main W A) \<noteq> 0"
  shows "(uncaught (main W A) = None) = (\<forall>r \<in> set (outcomes (main W A)). is_success r)"
proof (cases "args_random_useragent A \<and> args_mobile_useragent A")
  case True
  with assms show ?thesis by (simp add: main_def Let_def split_def)
next
  case conflict: False
  show ?thesis
  proof (cases "parse_size W (args_min_size A)")
    case (Inl e)
    with assms conflict show ?thesis by (simp add: main_def Let_def split_def)
  next
    case mn: (Inr mn)
    show ?thesis
    proof (cases "parse_size W (args_max_size A)")
      case (Inl e)
      with assms conflict mn show ?thesis by (simp add: main_def Let_def split_def)
    next
      case mx: (Inr mx)
      show ?thesis
      proof (cases "snd (gather_urls W A) = []")
        case True
        with assms conflict mn mx show ?thesis by (simp add: main_def Let_def split_def)
      next
        case urls: False
        show ?thesis
        proof (cases "log_error W")
          case (Some e)
          with assms conflict mn mx urls show ?thesis
            by (simp add: main_def Let_def split_def)
        next
          case None
          show ?thesis
          proof (cases "args_threads A \<le> 0")
            case True
            with assms conflict mn mx urls None show ?thesis
              by (simp add: main_def Let_def split_def)
          next
            case threads: False
            have "\<forall>r \<in> set (outcomes (main W A)). is_success r = unpackable r"
              using conflict mn mx urls None threads
              by (simp add: main_def Let_def split_def drain_keeps set_as_completed
                  run_tasks_returns)
            moreover have "(uncaught (main W A) = None) =
                (\<forall>r \<in> set (outcomes (main W A)). unpackable r)"
              using conflict mn mx urls None threads
              by (simp add: main_def Let_def split_def drain_keeps drain_uncaught)
            ultimately show ?thesis by simp
          qed
        qed
      qed
    qed
  qed
qed

lemma drain_all_success:
  assumes "\<forall>r \<in> set (outcomes so_far). is_success r"
  shows "log_written (drain W A color name so_far) =
           map (\<lambda>r. line_of r @ [CHR 0x0A]) (outcomes so_far) \<and>
         uncaught (drain W A color name so_far) = uncaught so_far \<and>
         set (summary color (map line_of (outcomes so_far)))
           \<subseteq> set (stdout (drain W A color name so_far))"
  by (auto simp: drain_def consume_successes [OF assms])

text \<open>
  C1, at an input where it fails. One URL whose path ends in \<open>/\<close>, answered with status 200:
  the task returns the bare line \<open>Skipped (no filename)\<close>, unpacking it raises \<open>ValueError\<close>,
  and the run ends there. The line is not written to the log and nothing is printed after
  the opening line: no summary, no skipped files.
\<close>

theorem skipped_outcome_aborts_run:
  "outcomes (main example_world (example_args\<lparr>args_urls := [''http://h/'']\<rparr>)) =
     [RStr ''[!] Skipped (no filename): http://h/''] \<and>
   uncaught (main example_world (example_args\<lparr>args_urls := [''http://h/'']\<rparr>)) =
     Some ValueError_unpack \<and>
   log_written (main example_world (example_args\<lparr>args_urls := [''http://h/'']\<rparr>)) = [] \<and>
   stdout (main example_world (example_args\<lparr>args_urls := [''http://h/'']\<rparr>)) =
     [[CHR 0x0A, CHR 0xF0, CHR 0x9F, CHR 0x93, CHR 0xA5] @
      '' Downloading 1 file(s) with 5 threads...'' @ [CHR 0x0A]]"
  by code_simp

text \<open>
  C3, at an input where it fails. Of a success with status 200 and 500 bytes, a skipped file
  and a success with status 201, the loop consumes the first and raises at the second: no
  totals are reported. Without the skipped file the loop ends with the totals the claim
  states: one download of 500 bytes, the successes with status 201 or an empty body among
  the lines and outside the totals.
\<close>

theorem skipped_outcome_aborts_totals:
  "consume empty_tally
     [RTuple ''a'' 200 500, RStr ''[!] Skipped (no filename): http://h/'', RTuple ''b'' 201 7] =
   Inl (ValueError_unpack,
        \<lparr>results = [''a''], log_lines = [''a'' @ [CHR 0x0A]], total_downloaded = 1,
           total_bytes = 500\<rparr>) \<and>
   consume empty_tally [RTuple ''a'' 200 500, RTuple ''b'' 201 7, RTuple ''c'' 200 0] =
   Inr \<lparr>results = [''a'', ''b'', ''c''],
        log_lines = [''a'' @ [CHR 0x0A], ''b'' @ [CHR 0x0A], ''c'' @ [CHR 0x0A]],
        total_downloaded = 1, total_bytes = 500\<rparr>"
  by code_simp

end
